theory Spec2Isabelle
  imports Complex_Main "HOL-Library.Log_Nat"
begin

section \<open>Strings\<close>

text \<open>
  A Python \<open>str\<close> is a sequence of Unicode code points, so a string is a list of
  code point numbers. The literals of the source are written with \<open>u\<close>, and joined with
  explicit code points where the source text is not ASCII (the bullet of the statistics
  reply, the emoji of the joke).
\<close>

type_synonym pystr = "nat list"

definition u :: "string \<Rightarrow> pystr" where
  "u s = map of_char s"

text \<open>
  The Unicode character database is not part of the repository. The model fixes what
  Python does on ASCII and takes the rest of the database as a parameter:
  which code points beyond ASCII are decimal digits (what \<open>\d\<close> matches besides 0-9),
  which are whitespace (\<open>\s\<close>, \<open>str.strip\<close>), what \<open>str.lower\<close> returns on a string
  that is not pure ASCII, and which pattern characters and input characters, one of them
  beyond ASCII, match each other under \<open>re.IGNORECASE\<close>.
\<close>

record unicode =
  uc_decimal :: "nat \<Rightarrow> bool"
  uc_space :: "nat \<Rightarrow> bool"
  uc_lower :: "pystr \<Rightarrow> pystr"
  uc_ieq :: "nat \<Rightarrow> nat \<Rightarrow> bool"

definition ascii_digit :: "nat \<Rightarrow> bool" where
  "ascii_digit c = (48 \<le> c \<and> c \<le> 57)"

definition is_digit :: "unicode \<Rightarrow> nat \<Rightarrow> bool" where
  "is_digit U c = (ascii_digit c \<or> (128 \<le> c \<and> uc_decimal U c))"

definition ascii_space :: "nat \<Rightarrow> bool" where
  "ascii_space c = ((9 \<le> c \<and> c \<le> 13) \<or> (28 \<le> c \<and> c \<le> 32))"

definition is_space :: "unicode \<Rightarrow> nat \<Rightarrow> bool" where
  "is_space U c = (ascii_space c \<or> (128 \<le> c \<and> uc_space U c))"

definition ascii_lower :: "nat \<Rightarrow> nat" where
  "ascii_lower c = (if 65 \<le> c \<and> c \<le> 90 then c + 32 else c)"

definition py_lower :: "unicode \<Rightarrow> pystr \<Rightarrow> pystr" where
  "py_lower U s = (if list_all (\<lambda>c. c < 128) s then map ascii_lower s else uc_lower U s)"

definition py_strip :: "unicode \<Rightarrow> pystr \<Rightarrow> pystr" where
  "py_strip U s = rev (dropWhile (is_space U) (rev (dropWhile (is_space U) s)))"

text \<open>\<open>needle in haystack\<close> on strings: the needle occurs as a contiguous block.\<close>

fun starts_with :: "pystr \<Rightarrow> pystr \<Rightarrow> bool" where
  "starts_with [] s = True"
| "starts_with (p # ps) [] = False"
| "starts_with (p # ps) (c # cs) = (p = c \<and> starts_with ps cs)"

fun py_in :: "pystr \<Rightarrow> pystr \<Rightarrow> bool" where
  "py_in needle [] = (needle = [])"
| "py_in needle (c # cs) = (starts_with needle (c # cs) \<or> py_in needle cs)"

text \<open>Decimal rendering of an integer, as \<open>str\<close> gives it.\<close>

fun digits_rev :: "nat \<Rightarrow> pystr" where
  "digits_rev n = (48 + n mod 10) # (if n < 10 then [] else digits_rev (n div 10))"

declare digits_rev.simps [simp del]

definition nat_str :: "nat \<Rightarrow> pystr" where
  "nat_str n = rev (digits_rev n)"

definition int_str :: "int \<Rightarrow> pystr" where
  "int_str i = (if i < 0 then 45 # nat_str (nat (- i)) else nat_str (nat i))"

section \<open>Python numbers\<close>

text \<open>
  The arithmetic evaluator hands its cleaned string to Python's \<open>eval\<close>, so the values
  are Python's: unbounded integers, binary64 floats, and the few other objects that an
  expression over digits, \<open>+ - * / ( ) .\<close> can denote (the empty tuple \<open>()\<close>, the
  constant \<open>...\<close>, complex numbers from a negative base under a fractional power).

  A float is a sign and a non-negative rational magnitude, an infinity or a NaN. The
  operations that IEEE 754 and CPython define as the correctly rounded exact result
  (literals, \<open>int\<close> to \<open>float\<close>, \<open>+ - * /\<close>) are computed so, with
  \<open>round64\<close> rounding to nearest, ties to even, in the binary64 format.
\<close>

datatype pyfloat = FFinite bool rat | FInf bool | FNaN

datatype pyval = PyInt int | PyFloat pyfloat | PyComplex pyfloat pyfloat | PyTuple | PyEllipsis

datatype pyexc = SyntaxError | ZeroDivisionError | TypeError | OverflowError | ValueError

datatype unop = UAdd | USub

datatype binop = Add | Sub | Mult | Div | FloorDiv | Pow

definition round_half_even :: "rat \<Rightarrow> int" where
  "round_half_even x =
     (let f = \<lfloor>x\<rfloor>; d = x - of_int f
      in if d < 1 / 2 then f else if 1 / 2 < d then f + 1 else if even f then f else f + 1)"

text \<open>\<open>ilog2 q\<close> is the binary exponent of a positive rational: \<open>2 ^ ilog2 q \<le> q < 2 ^ (ilog2 q + 1)\<close>.\<close>

definition ilog2 :: "rat \<Rightarrow> int" where
  "ilog2 q =
     (let (a, b) = quotient_of q;
          d = int (floorlog 2 (nat a)) - int (floorlog 2 (nat b))
      in if 2 powi d \<le> q then d else d - 1)"

definition round64 :: "bool \<Rightarrow> rat \<Rightarrow> pyfloat" where
  "round64 s q =
     (if q = 0 then FFinite s 0
      else let e = max (ilog2 q) (- 1022);
               ulp = 2 powi (e - 52);
               r = of_int (round_half_even (q / ulp)) * ulp
           in if 2 ^ 1024 \<le> r then FInf s else FFinite s r)"

definition signed :: "bool \<Rightarrow> rat \<Rightarrow> rat" where
  "signed s q = (if s then - q else q)"

fun fneg :: "pyfloat \<Rightarrow> pyfloat" where
  "fneg (FFinite s q) = FFinite (\<not> s) q"
| "fneg (FInf s) = FInf (\<not> s)"
| "fneg FNaN = FNaN"

fun fadd :: "pyfloat \<Rightarrow> pyfloat \<Rightarrow> pyfloat" where
  "fadd FNaN y = FNaN"
| "fadd x FNaN = FNaN"
| "fadd (FInf s) (FInf t) = (if s = t then FInf s else FNaN)"
| "fadd (FInf s) y = FInf s"
| "fadd x (FInf t) = FInf t"
| "fadd (FFinite s p) (FFinite t q) =
     (let r = signed s p + signed t q
      in if r = 0 then FFinite (s \<and> t) 0 else round64 (r < 0) \<bar>r\<bar>)"

definition fsub :: "pyfloat \<Rightarrow> pyfloat \<Rightarrow> pyfloat" where
  "fsub x y = fadd x (fneg y)"

fun fmul :: "pyfloat \<Rightarrow> pyfloat \<Rightarrow> pyfloat" where
  "fmul FNaN y = FNaN"
| "fmul x FNaN = FNaN"
| "fmul (FInf s) (FInf t) = FInf (s \<noteq> t)"
| "fmul (FInf s) (FFinite t q) = (if q = 0 then FNaN else FInf (s \<noteq> t))"
| "fmul (FFinite s p) (FInf t) = (if p = 0 then FNaN else FInf (s \<noteq> t))"
| "fmul (FFinite s p) (FFinite t q) = round64 (s \<noteq> t) (p * q)"

fun fdiv :: "pyfloat \<Rightarrow> pyfloat \<Rightarrow> pyfloat" where
  "fdiv FNaN y = FNaN"
| "fdiv x FNaN = FNaN"
| "fdiv (FInf s) (FInf t) = FNaN"
| "fdiv (FInf s) (FFinite t q) = FInf (s \<noteq> t)"
| "fdiv (FFinite s p) (FInf t) = FFinite (s \<noteq> t) 0"
| "fdiv (FFinite s p) (FFinite t q) =
     (if q = 0 then (if p = 0 then FNaN else FInf (s \<noteq> t))
      else round64 (s \<noteq> t) (p / q))"

fun fzero :: "pyfloat \<Rightarrow> bool" where
  "fzero (FFinite s q) = (q = 0)"
| "fzero x = False"

text \<open>
  \<open>float(i)\<close> as the mixed operations apply it: correctly rounded, and an
  \<open>OverflowError\<close> where the integer is beyond the largest float.
\<close>

definition float_of_int :: "int \<Rightarrow> pyexc + pyfloat" where
  "float_of_int i =
     (case round64 (i < 0) (of_int \<bar>i\<bar>) of
        FInf s \<Rightarrow> Inl OverflowError
      | x \<Rightarrow> Inr x)"

text \<open>
  \<open>a / b\<close> on two integers: the correctly rounded quotient, whatever the size of the
  operands; a zero quotient takes the sign of the operands' signs.
\<close>

definition int_true_divide :: "int \<Rightarrow> int \<Rightarrow> pyexc + pyval" where
  "int_true_divide a b =
     (if b = 0 then Inl ZeroDivisionError
      else case round64 ((a < 0) \<noteq> (b < 0)) (of_int \<bar>a\<bar> / of_int \<bar>b\<bar>) of
             FInf s \<Rightarrow> Inl OverflowError
           | x \<Rightarrow> Inr (PyFloat x))"

text \<open>
  What the model leaves to the platform: the limit on the decimal digits of an integer
  that is parsed or printed (\<open>sys.get_int_max_str_digits()\<close>: 0 for no limit, and
  otherwise at least 640, the least value the interpreter accepts),
  \<open>sys.maxsize\<close>, the C library's \<open>pow\<close> behind \<open>float.__pow__\<close>, CPython's own
  floor division of floats, complex arithmetic, and the printing of the floats that are
  not integers below \<open>10 ^ 16\<close> and of complex numbers.
\<close>

record platform =
  int_max_str_digits :: nat
  maxsize :: int
  float_pow :: "pyfloat \<Rightarrow> pyfloat \<Rightarrow> pyexc + pyval"
  float_floor_div :: "pyfloat \<Rightarrow> pyfloat \<Rightarrow> pyfloat"
  complex_op :: "binop \<Rightarrow> pyval \<Rightarrow> pyval \<Rightarrow> pyexc + pyval"
  float_repr :: "pyfloat \<Rightarrow> pystr"
  complex_repr :: "pyfloat \<Rightarrow> pyfloat \<Rightarrow> pystr"

fun float_op :: "platform \<Rightarrow> binop \<Rightarrow> pyfloat \<Rightarrow> pyfloat \<Rightarrow> pyexc + pyval" where
  "float_op P Add x y = Inr (PyFloat (fadd x y))"
| "float_op P Sub x y = Inr (PyFloat (fsub x y))"
| "float_op P Mult x y = Inr (PyFloat (fmul x y))"
| "float_op P Div x y = (if fzero y then Inl ZeroDivisionError else Inr (PyFloat (fdiv x y)))"
| "float_op P FloorDiv x y =
     (if fzero y then Inl ZeroDivisionError else Inr (PyFloat (float_floor_div P x y)))"
| "float_op P Pow x y = float_pow P x y"

text \<open>Both operands of a mixed operation are converted before the operation runs, the left one first.\<close>

definition as_floats :: "pyexc + pyfloat \<Rightarrow> pyexc + pyfloat \<Rightarrow> (pyfloat \<Rightarrow> pyfloat \<Rightarrow> pyexc + pyval)
    \<Rightarrow> pyexc + pyval" where
  "as_floats cx cy f =
     (case cx of Inl e \<Rightarrow> Inl e
      | Inr x \<Rightarrow> (case cy of Inl e \<Rightarrow> Inl e | Inr y \<Rightarrow> f x y))"

fun int_op :: "platform \<Rightarrow> binop \<Rightarrow> int \<Rightarrow> int \<Rightarrow> pyexc + pyval" where
  "int_op P Add a b = Inr (PyInt (a + b))"
| "int_op P Sub a b = Inr (PyInt (a - b))"
| "int_op P Mult a b = Inr (PyInt (a * b))"
| "int_op P Div a b = int_true_divide a b"
| "int_op P FloorDiv a b = (if b = 0 then Inl ZeroDivisionError else Inr (PyInt (a div b)))"
| "int_op P Pow a b =
     (if 0 \<le> b then Inr (PyInt (a ^ nat b))
      else as_floats (float_of_int a) (float_of_int b) (float_pow P))"

text \<open>
  A tuple can only be the empty one here: it adds to itself and repeats under an
  integer that fits an index; every other operation on it, and every operation on
  \<open>...\<close>, is a \<open>TypeError\<close>.
\<close>

definition repeat_empty :: "platform \<Rightarrow> int \<Rightarrow> pyexc + pyval" where
  "repeat_empty P n =
     (if - maxsize P - 1 \<le> n \<and> n \<le> maxsize P then Inr PyTuple else Inl OverflowError)"

fun binary :: "platform \<Rightarrow> binop \<Rightarrow> pyval \<Rightarrow> pyval \<Rightarrow> pyexc + pyval" where
  "binary P op (PyInt a) (PyInt b) = int_op P op a b"
| "binary P op (PyInt a) (PyFloat y) = as_floats (float_of_int a) (Inr y) (float_op P op)"
| "binary P op (PyFloat x) (PyInt b) = as_floats (Inr x) (float_of_int b) (float_op P op)"
| "binary P op (PyFloat x) (PyFloat y) = float_op P op x y"
| "binary P op (PyComplex r i) (PyInt b) = complex_op P op (PyComplex r i) (PyInt b)"
| "binary P op (PyComplex r i) (PyFloat y) = complex_op P op (PyComplex r i) (PyFloat y)"
| "binary P op (PyComplex r i) (PyComplex r' i') = complex_op P op (PyComplex r i) (PyComplex r' i')"
| "binary P op (PyInt a) (PyComplex r i) = complex_op P op (PyInt a) (PyComplex r i)"
| "binary P op (PyFloat x) (PyComplex r i) = complex_op P op (PyFloat x) (PyComplex r i)"
| "binary P Add PyTuple PyTuple = Inr PyTuple"
| "binary P Mult PyTuple (PyInt n) = repeat_empty P n"
| "binary P Mult (PyInt n) PyTuple = repeat_empty P n"
| "binary P op x y = Inl TypeError"

fun unary :: "unop \<Rightarrow> pyval \<Rightarrow> pyexc + pyval" where
  "unary UAdd (PyInt a) = Inr (PyInt a)"
| "unary USub (PyInt a) = Inr (PyInt (- a))"
| "unary UAdd (PyFloat x) = Inr (PyFloat x)"
| "unary USub (PyFloat x) = Inr (PyFloat (fneg x))"
| "unary UAdd (PyComplex r i) = Inr (PyComplex r i)"
| "unary USub (PyComplex r i) = Inr (PyComplex (fneg r) (fneg i))"
| "unary op x = Inl TypeError"

text \<open>
  \<open>str\<close> of a value, as the f-string of the reply applies it. Printing an integer
  of more digits than the platform's limit raises \<open>ValueError\<close>. A float that is an
  integer below \<open>10 ^ 16\<close> prints as that integer followed by \<open>.0\<close>.
\<close>

definition over_limit :: "nat \<Rightarrow> nat \<Rightarrow> bool" where
  "over_limit maxd n = (0 < maxd \<and> max 640 maxd < n)"

definition int_repr :: "platform \<Rightarrow> int \<Rightarrow> pyexc + pystr" where
  "int_repr P i =
     (if over_limit (int_max_str_digits P) (length (nat_str (nat \<bar>i\<bar>)))
      then Inl ValueError else Inr (int_str i))"

fun py_float_repr :: "platform \<Rightarrow> pyfloat \<Rightarrow> pystr" where
  "py_float_repr P FNaN = u ''nan''"
| "py_float_repr P (FInf s) = (if s then u ''-inf'' else u ''inf'')"
| "py_float_repr P (FFinite s q) =
     (if q = of_int \<lfloor>q\<rfloor> \<and> q < 10 ^ 16
      then (if s then u ''-'' else []) @ nat_str (nat \<lfloor>q\<rfloor>) @ u ''.0''
      else float_repr P (FFinite s q))"

fun py_str :: "platform \<Rightarrow> pyval \<Rightarrow> pyexc + pystr" where
  "py_str P (PyInt i) = int_repr P i"
| "py_str P (PyFloat x) = Inr (py_float_repr P x)"
| "py_str P (PyComplex r i) = Inr (complex_repr P r i)"
| "py_str P PyTuple = Inr (u ''()'')"
| "py_str P PyEllipsis = Inr (u ''Ellipsis'')"

section \<open>Python expressions over the whitelisted characters\<close>

text \<open>
  \<open>eval\<close> compiles its argument and then runs it. Over the characters the
  evaluator lets through, Python's tokens are integer and float literals, the
  operators \<open>+ - * / ** //\<close>, parentheses, the dot and \<open>...\<close>; a decimal digit
  that is not ASCII is an invalid character.
\<close>

datatype token = INTLIT pystr | FLOATLIT pystr pystr | PLUS | MINUS | STAR | SLASH
  | DOUBLESTAR | DOUBLESLASH | LPAR | RPAR | DOT | ELLIPSIS

lemma length_dropWhile_less: "length (dropWhile Q xs) < Suc (length xs)"
  by (simp add: length_dropWhile_le le_imp_less_Suc)

lemma dropWhile_eq_Cons_len: "dropWhile Q xs = d # r \<Longrightarrow> length r < length xs"
  by (metis length_dropWhile_le length_Cons Suc_le_lessD)

function tokenize :: "pystr \<Rightarrow> token list option" where
  "tokenize [] = Some []"
| "tokenize (c # cs) =
     (if ascii_digit c then
        (case dropWhile ascii_digit cs of
           [] \<Rightarrow> Some [INTLIT (c # takeWhile ascii_digit cs)]
         | d # r \<Rightarrow>
             if d = 46
             then map_option ((#) (FLOATLIT (c # takeWhile ascii_digit cs) (takeWhile ascii_digit r)))
                    (tokenize (dropWhile ascii_digit r))
             else map_option ((#) (INTLIT (c # takeWhile ascii_digit cs))) (tokenize (d # r)))
      else if c = 46 then
        (case cs of
           [] \<Rightarrow> Some [DOT]
         | d # r \<Rightarrow>
             if ascii_digit d
             then map_option ((#) (FLOATLIT [] (d # takeWhile ascii_digit r)))
                    (tokenize (dropWhile ascii_digit r))
             else if d = 46 \<and> r \<noteq> [] \<and> hd r = 46
             then map_option ((#) ELLIPSIS) (tokenize (tl r))
             else map_option ((#) DOT) (tokenize cs))
      else if c = 43 then map_option ((#) PLUS) (tokenize cs)
      else if c = 45 then map_option ((#) MINUS) (tokenize cs)
      else if c = 40 then map_option ((#) LPAR) (tokenize cs)
      else if c = 41 then map_option ((#) RPAR) (tokenize cs)
      else if c = 42 then
        (case cs of
           [] \<Rightarrow> Some [STAR]
         | d # r \<Rightarrow> if d = 42 then map_option ((#) DOUBLESTAR) (tokenize r)
                     else map_option ((#) STAR) (tokenize cs))
      else if c = 47 then
        (case cs of
           [] \<Rightarrow> Some [SLASH]
         | d # r \<Rightarrow> if d = 47 then map_option ((#) DOUBLESLASH) (tokenize r)
                     else map_option ((#) SLASH) (tokenize cs))
      else None)"
  by pat_completeness auto

termination
  apply (relation "measure length")
  apply (auto simp: length_dropWhile_less dest!: dropWhile_eq_Cons_len)
  apply (metis length_dropWhile_le less_Suc_eq_le order_less_le_trans less_imp_le_nat not_less_eq)+
  done

text \<open>
  The value of a literal. An integer literal with a leading zero is legal only if it is
  all zeros, and one of more digits than the platform's limit is rejected when the
  source is compiled; a float literal is the correctly rounded decimal.
\<close>

definition digits_value :: "pystr \<Rightarrow> nat" where
  "digits_value ds = foldl (\<lambda>a d. 10 * a + (d - 48)) 0 ds"

fun literal :: "nat \<Rightarrow> token \<Rightarrow> pyval option" where
  "literal maxd (INTLIT ds) =
     (if list_all (\<lambda>d. d = 48) ds then Some (PyInt 0)
      else if hd ds = 48 then None
      else if over_limit maxd (length ds) then None
      else Some (PyInt (int (digits_value ds))))"
| "literal maxd (FLOATLIT ip fp) =
     Some (PyFloat (round64 False (of_nat (digits_value (ip @ fp)) / 10 ^ length fp)))"
| "literal maxd t = None"

datatype argkind = Positional | Starred | DoubleStarred

datatype expr = Constant pyval | UnaryOp unop expr | BinOp expr binop expr
  | Call expr "(argkind \<times> expr) option"

text \<open>
  The grammar, as the language reference gives it, cut down to these tokens:
  \<^verbatim>\<open>
  sum:     sum ('+' | '-') term | term
  term:    term ('*' | '/' | '//') factor | factor
  factor:  ('+' | '-') factor | power
  power:   primary '**' factor | primary
  primary: primary '(' [['*' | '**'] sum] ')' | atom
  atom:    NUMBER | '...' | '(' ')' | '(' sum ')'
  \<close>
  Each parser returns the expression and the tokens left. \<open>shorter\<close> rechecks that
  a parser did not return more tokens than it was given, which is what makes the
  recursion well-founded; the parsers only consume tokens, so the check is a formality.
\<close>

type_synonym parsed = "(expr \<times> token list) option"

definition shorter :: "token list \<Rightarrow> parsed \<Rightarrow> parsed" where
  "shorter ts res =
     (case res of None \<Rightarrow> None
      | Some (e, r) \<Rightarrow> if length r \<le> length ts then Some (e, r) else None)"

function parse_sum :: "nat \<Rightarrow> token list \<Rightarrow> parsed"
  and sum_rest :: "nat \<Rightarrow> expr \<Rightarrow> token list \<Rightarrow> parsed"
  and parse_term :: "nat \<Rightarrow> token list \<Rightarrow> parsed"
  and term_rest :: "nat \<Rightarrow> expr \<Rightarrow> token list \<Rightarrow> parsed"
  and parse_factor :: "nat \<Rightarrow> token list \<Rightarrow> parsed"
  and parse_power :: "nat \<Rightarrow> token list \<Rightarrow> parsed"
  and parse_primary :: "nat \<Rightarrow> token list \<Rightarrow> parsed"
  and trailers :: "nat \<Rightarrow> expr \<Rightarrow> token list \<Rightarrow> parsed"
  and parse_atom :: "nat \<Rightarrow> token list \<Rightarrow> parsed"
where
  "parse_sum maxd ts =
     (case shorter ts (parse_term maxd ts) of None \<Rightarrow> None | Some (e, r) \<Rightarrow> sum_rest maxd e r)"
| "sum_rest maxd e ts =
     (case ts of
        PLUS # ts' \<Rightarrow> (case shorter ts' (parse_term maxd ts') of None \<Rightarrow> None
                      | Some (e', r) \<Rightarrow> sum_rest maxd (BinOp e Add e') r)
      | MINUS # ts' \<Rightarrow> (case shorter ts' (parse_term maxd ts') of None \<Rightarrow> None
                      | Some (e', r) \<Rightarrow> sum_rest maxd (BinOp e Sub e') r)
      | _ \<Rightarrow> Some (e, ts))"
| "parse_term maxd ts =
     (case shorter ts (parse_factor maxd ts) of None \<Rightarrow> None | Some (e, r) \<Rightarrow> term_rest maxd e r)"
| "term_rest maxd e ts =
     (case ts of
        STAR # ts' \<Rightarrow> (case shorter ts' (parse_factor maxd ts') of None \<Rightarrow> None
                      | Some (e', r) \<Rightarrow> term_rest maxd (BinOp e Mult e') r)
      | SLASH # ts' \<Rightarrow> (case shorter ts' (parse_factor maxd ts') of None \<Rightarrow> None
                      | Some (e', r) \<Rightarrow> term_rest maxd (BinOp e Div e') r)
      | DOUBLESLASH # ts' \<Rightarrow> (case shorter ts' (parse_factor maxd ts') of None \<Rightarrow> None
                      | Some (e', r) \<Rightarrow> term_rest maxd (BinOp e FloorDiv e') r)
      | _ \<Rightarrow> Some (e, ts))"
| "parse_factor maxd ts =
     (case ts of
        PLUS # ts' \<Rightarrow> (case parse_factor maxd ts' of None \<Rightarrow> None
                      | Some (e, r) \<Rightarrow> Some (UnaryOp UAdd e, r))
      | MINUS # ts' \<Rightarrow> (case parse_factor maxd ts' of None \<Rightarrow> None
                      | Some (e, r) \<Rightarrow> Some (UnaryOp USub e, r))
      | _ \<Rightarrow> parse_power maxd ts)"
| "parse_power maxd ts =
     (case shorter ts (parse_primary maxd ts) of None \<Rightarrow> None
      | Some (e, r) \<Rightarrow>
          (case r of
             DOUBLESTAR # r' \<Rightarrow> (case parse_factor maxd r' of None \<Rightarrow> None
                                | Some (e', r'') \<Rightarrow> Some (BinOp e Pow e', r''))
           | _ \<Rightarrow> Some (e, r)))"
| "parse_primary maxd ts =
     (case shorter ts (parse_atom maxd ts) of None \<Rightarrow> None | Some (e, r) \<Rightarrow> trailers maxd e r)"
| "trailers maxd e ts =
     (case ts of
        LPAR # RPAR # ts' \<Rightarrow> trailers maxd (Call e None) ts'
      | LPAR # STAR # ts' \<Rightarrow>
          (case shorter ts' (parse_sum maxd ts') of
             Some (a, RPAR # r) \<Rightarrow> trailers maxd (Call e (Some (Starred, a))) r
           | _ \<Rightarrow> None)
      | LPAR # DOUBLESTAR # ts' \<Rightarrow>
          (case shorter ts' (parse_sum maxd ts') of
             Some (a, RPAR # r) \<Rightarrow> trailers maxd (Call e (Some (DoubleStarred, a))) r
           | _ \<Rightarrow> None)
      | LPAR # ts' \<Rightarrow>
          (case shorter ts' (parse_sum maxd ts') of
             Some (a, RPAR # r) \<Rightarrow> trailers maxd (Call e (Some (Positional, a))) r
           | _ \<Rightarrow> None)
      | _ \<Rightarrow> Some (e, ts))"
| "parse_atom maxd ts =
     (case ts of
        INTLIT ds # ts' \<Rightarrow> map_option (\<lambda>v. (Constant v, ts')) (literal maxd (INTLIT ds))
      | FLOATLIT ip fp # ts' \<Rightarrow> map_option (\<lambda>v. (Constant v, ts')) (literal maxd (FLOATLIT ip fp))
      | ELLIPSIS # ts' \<Rightarrow> Some (Constant PyEllipsis, ts')
      | LPAR # RPAR # ts' \<Rightarrow> Some (Constant PyTuple, ts')
      | LPAR # ts' \<Rightarrow>
          (case parse_sum maxd ts' of Some (e, RPAR # r) \<Rightarrow> Some (e, r) | _ \<Rightarrow> None)
      | _ \<Rightarrow> None)"
  by pat_completeness auto

termination
  apply (relation "measure (\<lambda>x. case x of
      Inl (Inl (Inl (maxd, ts))) \<Rightarrow> 10 * length ts + 9
    | Inl (Inl (Inr (maxd, e, ts))) \<Rightarrow> 10 * length ts + 8
    | Inl (Inr (Inl (maxd, ts))) \<Rightarrow> 10 * length ts + 7
    | Inl (Inr (Inr (maxd, e, ts))) \<Rightarrow> 10 * length ts + 6
    | Inr (Inl (Inl (maxd, ts))) \<Rightarrow> 10 * length ts + 5
    | Inr (Inl (Inr (maxd, ts))) \<Rightarrow> 10 * length ts + 4
    | Inr (Inr (Inl (maxd, ts))) \<Rightarrow> 10 * length ts + 3
    | Inr (Inr (Inr (Inl (maxd, e, ts)))) \<Rightarrow> 10 * length ts + 2
    | Inr (Inr (Inr (Inr (maxd, ts)))) \<Rightarrow> 10 * length ts + 1)")
  apply (auto simp: shorter_def split: option.splits if_splits prod.splits)
  done



text \<open>
  Evaluation runs left to right and stops at the first exception. A call evaluates
  the callee and then the argument; none of the values is callable, unpackable or a
  mapping, so the call itself is always a \<open>TypeError\<close>.
\<close>

fun eval_expr :: "platform \<Rightarrow> expr \<Rightarrow> pyexc + pyval" where
  "eval_expr P (Constant v) = Inr v"
| "eval_expr P (UnaryOp op e) =
     (case eval_expr P e of Inl x \<Rightarrow> Inl x | Inr v \<Rightarrow> unary op v)"
| "eval_expr P (BinOp a op b) =
     (case eval_expr P a of Inl x \<Rightarrow> Inl x
      | Inr va \<Rightarrow> (case eval_expr P b of Inl x \<Rightarrow> Inl x | Inr vb \<Rightarrow> binary P op va vb))"
| "eval_expr P (Call f None) =
     (case eval_expr P f of Inl x \<Rightarrow> Inl x | Inr vf \<Rightarrow> Inl TypeError)"
| "eval_expr P (Call f (Some (k, a))) =
     (case eval_expr P f of Inl x \<Rightarrow> Inl x
      | Inr vf \<Rightarrow> (case eval_expr P a of Inl x \<Rightarrow> Inl x | Inr va \<Rightarrow> Inl TypeError))"

text \<open>
  The tokenizer counts the parentheses that are open: it rejects one that is opened
  inside 200 others (its \<open>MAXLEVEL\<close>, "too many nested parentheses") and one that is
  closed without having been opened. Compiling fails with a \<open>SyntaxError\<close> when the
  tokenizer does, and when the tokens are not one expression of the grammar. Memory and
  the interpreter's recursion depth are taken to suffice for the expression.
\<close>

definition MAXLEVEL :: nat where
  "MAXLEVEL = 200"

fun nesting :: "nat \<Rightarrow> token list \<Rightarrow> bool" where
  "nesting level [] = True"
| "nesting level (LPAR # ts) = (level < MAXLEVEL \<and> nesting (Suc level) ts)"
| "nesting level (RPAR # ts) = (0 < level \<and> nesting (level - 1) ts)"
| "nesting level (t # ts) = nesting level ts"

definition py_compile :: "platform \<Rightarrow> pystr \<Rightarrow> expr option" where
  "py_compile P src =
     (case tokenize src of None \<Rightarrow> None
      | Some ts \<Rightarrow>
          if \<not> nesting 0 ts then None
          else (case parse_sum (int_max_str_digits P) ts of
                  Some (e, []) \<Rightarrow> Some e
                | _ \<Rightarrow> None))"

definition py_eval :: "platform \<Rightarrow> pystr \<Rightarrow> pyexc + pyval" where
  "py_eval P src = (case py_compile P src of None \<Rightarrow> Inl SyntaxError | Some e \<Rightarrow> eval_expr P e)"

section \<open>The arithmetic evaluator\<close>

definition MSG_ONLY_BASIC :: pystr where
  "MSG_ONLY_BASIC = u ''I can only handle basic math with +, -, *, / and parentheses.''"

definition MSG_DIV_ZERO :: pystr where
  "MSG_DIV_ZERO = u ''Oops! Division by zero is not allowed.''"

definition MSG_UNSOLVED :: pystr where
  "MSG_UNSOLVED = u ''I couldn't solve that math problem. Please check your expression.''"

definition MSG_ANSWER :: pystr where
  "MSG_ANSWER = u ''The answer is: ''"

text \<open>The class \<open>[\d\+\-\*\/\(\)\.]\<close> of the two regular expressions of \<open>handle_math\<close>.\<close>

definition math_char :: "unicode \<Rightarrow> nat \<Rightarrow> bool" where
  "math_char U c = (is_digit U c \<or> c \<in> {43, 45, 42, 47, 40, 41, 46})"

text \<open>
  \<open>re.sub(r'[^\d\+\-\*\/\(\)\.\s]', '', expression)\<close> followed by
  \<open>re.sub(r'\s+', '', expr)\<close>.
\<close>

definition clean :: "unicode \<Rightarrow> pystr \<Rightarrow> pystr" where
  "clean U expression =
     filter (\<lambda>c. \<not> is_space U c) (filter (\<lambda>c. math_char U c \<or> is_space U c) expression)"

text \<open>
  \<open>re.match(r'^[\d\+\-\*\/\(\)\.]+$', expr)\<close>: one or more characters of the class up to
  the end of the string, where \<open>$\<close> also matches just before a final newline.
\<close>

definition whitelisted :: "unicode \<Rightarrow> pystr \<Rightarrow> bool" where
  "whitelisted U expr =
     ((expr \<noteq> [] \<and> list_all (math_char U) expr) \<or>
      (expr \<noteq> [] \<and> last expr = 10 \<and> butlast expr \<noteq> [] \<and> list_all (math_char U) (butlast expr)))"

text \<open>
  The body of the \<open>try\<close>, with the strings it hands to \<open>eval\<close> recorded beside its
  outcome, and the two \<open>except\<close> clauses around it.
\<close>

definition handle_math_try :: "unicode \<Rightarrow> platform \<Rightarrow> pystr \<Rightarrow> pystr list \<times> (pyexc + pystr)" where
  "handle_math_try U P expression =
     (let expr = clean U expression
      in if \<not> whitelisted U expr then ([], Inr MSG_ONLY_BASIC)
         else ([expr],
               case py_eval P expr of
                 Inl x \<Rightarrow> Inl x
               | Inr result \<Rightarrow> (case py_str P result of Inl x \<Rightarrow> Inl x
                               | Inr text \<Rightarrow> Inr (MSG_ANSWER @ text))))"

definition evaluated :: "unicode \<Rightarrow> platform \<Rightarrow> pystr \<Rightarrow> pystr list" where
  "evaluated U P expression = fst (handle_math_try U P expression)"

definition handle_math :: "unicode \<Rightarrow> platform \<Rightarrow> pystr \<Rightarrow> pystr" where
  "handle_math U P expression =
     (case snd (handle_math_try U P expression) of
        Inr reply \<Rightarrow> reply
      | Inl ZeroDivisionError \<Rightarrow> MSG_DIV_ZERO
      | Inl x \<Rightarrow> MSG_UNSOLVED)"

section \<open>Patterns\<close>

text \<open>
  A stored pattern is kept as the syntax tree of its regular expression, over the
  constructs the seed patterns use; every pattern is compiled with \<open>re.IGNORECASE\<close>.
  \<open>rmatch\<close> lists what can be left of a string after the expression has matched a
  prefix of it, and \<open>re_search\<close> is \<open>pattern.search\<close>: a match starting anywhere.
\<close>

datatype regex = Eps | Chr nat | AnyChar | Digit | Space | OneOf "nat list"
  | Seq regex regex | Alt regex regex | Star regex

definition Plus :: "regex \<Rightarrow> regex" where
  "Plus a = Seq a (Star a)"

fun char_match :: "unicode \<Rightarrow> regex \<Rightarrow> nat \<Rightarrow> bool" where
  "char_match U (Chr p) c =
     (if c < 128 \<and> p < 128 then ascii_lower c = ascii_lower p else uc_ieq U p c)"
| "char_match U AnyChar c = (c \<noteq> 10)"
| "char_match U Digit c = is_digit U c"
| "char_match U Space c = is_space U c"
| "char_match U (OneOf cs) c = (c \<in> set cs)"
| "char_match U r c = False"

fun rmatch :: "unicode \<Rightarrow> regex \<Rightarrow> pystr \<Rightarrow> pystr list" where
  "rmatch U Eps s = [s]"
| "rmatch U (Seq a b) s = concat (map (rmatch U b) (rmatch U a s))"
| "rmatch U (Alt a b) s = rmatch U a s @ rmatch U b s"
| "rmatch U (Star a) s =
     s # concat (map (\<lambda>t. if length t < length s then rmatch U (Star a) t else []) (rmatch U a s))"
| "rmatch U r [] = []"
| "rmatch U r (c # cs) = (if char_match U r c then [cs] else [])"

fun re_search :: "unicode \<Rightarrow> regex \<Rightarrow> pystr \<Rightarrow> bool" where
  "re_search U r [] = (rmatch U r [] \<noteq> [])"
| "re_search U r (c # cs) = (rmatch U r (c # cs) \<noteq> [] \<or> re_search U r cs)"

fun lit :: "pystr \<Rightarrow> regex" where
  "lit [] = Eps"
| "lit (c # cs) = Seq (Chr c) (lit cs)"

fun alts :: "string list \<Rightarrow> regex" where
  "alts [] = Eps"
| "alts [x] = lit (u x)"
| "alts (x # xs) = Alt (lit (u x)) (alts xs)"

record pattern =
  pattern :: regex
  response :: pystr
  category :: pystr
  weight :: rat

definition mk :: "regex \<Rightarrow> pystr \<Rightarrow> string \<Rightarrow> rat \<Rightarrow> pattern" where
  "mk r t c w = \<lparr>pattern = r, response = t, category = u c, weight = w\<rparr>"

text \<open>The seed of \<open>load_initial_patterns\<close>, in the order of its insertions.\<close>

definition MATH_SEED :: regex where
  "MATH_SEED =
     Seq (Star AnyChar) (Seq (Plus Digit) (Seq (Star Space) (Seq (OneOf [43, 45, 42, 47])
       (Seq (Star Space) (Seq (Plus Digit) (Star AnyChar))))))"

definition MSG_FALLBACK_SEED :: pystr where
  "MSG_FALLBACK_SEED = u ''I understand you're trying to tell me something, but I'm not quite sure how to respond. Could you try rephrasing?''"

definition seed_greeting :: pattern where
  "seed_greeting =
     mk (alts [''hello'', ''hi'', ''hey'', ''good morning'', ''good afternoon'', ''good evening''])
        (u ''Hello! How can I help you today?'') ''greeting'' 1"

definition seed_how_are_you :: pattern where
  "seed_how_are_you =
     mk (alts [''how are you'', ''how do you do''])
        (u ''I'm doing well, thank you for asking! How are you?'') ''greeting'' 1"

definition seed_identity :: pattern where
  "seed_identity =
     mk (alts [''what are you'', ''who are you'', ''what is your name''])
        (u ''I'm a simple non-LLM chatbot built with Python. I use pattern matching and rule-based responses!'')
        ''identity'' 1"

definition seed_capabilities :: pattern where
  "seed_capabilities =
     mk (alts [''what can you do'', ''what are your capabilities''])
        (u ''I can have conversations, answer basic questions, do simple math, tell time, and learn from our chats!'')
        ''capabilities'' 1"

definition seed_math :: pattern where
  "seed_math = mk MATH_SEED [] ''math'' 2"

definition seed_time :: pattern where
  "seed_time = mk (alts [''what time'', ''current time'', ''time now'']) [] ''time'' 2"

definition seed_date :: pattern where
  "seed_date = mk (alts [''what date'', ''current date'', ''today'']) [] ''date'' 2"

definition seed_gratitude :: pattern where
  "seed_gratitude =
     mk (alts [''thank you'', ''thanks''])
        (u ''You're welcome! Is there anything else I can help you with?'') ''gratitude'' 1"

definition seed_farewell :: pattern where
  "seed_farewell =
     mk (alts [''goodbye'', ''bye'', ''see you'', ''farewell''])
        (u ''Goodbye! It was nice chatting with you. Come back anytime!'') ''farewell'' 1"

definition seed_help :: pattern where
  "seed_help =
     mk (alts [''help'', ''assistance''])
        (u ''I'm here to help! You can ask me questions, chat with me, or ask me to solve simple math problems.'')
        ''help'' 1"

definition seed_humor :: pattern where
  "seed_humor =
     mk (alts [''tell me a joke'', ''joke'', ''funny''])
        (u ''Why don't scientists trust atoms? Because they make up everything! '' @ [128516]) ''humor'' 1"

definition seed_age :: pattern where
  "seed_age =
     mk (alts [''how old are you''])
        (u ''I was just created, so I'm practically a newborn in AI years!'') ''age'' 1"

definition seed_fallback :: pattern where
  "seed_fallback = mk (Star AnyChar) MSG_FALLBACK_SEED ''fallback'' (1 / 10)"

definition load_initial_patterns :: "pattern list" where
  "load_initial_patterns =
     [seed_greeting, seed_how_are_you, seed_identity, seed_capabilities, seed_math, seed_time,
      seed_date, seed_gratitude, seed_farewell, seed_help, seed_humor, seed_age, seed_fallback]"

text \<open>
  \<open>load_responses\<close> reads the table \<open>ORDER BY weight DESC\<close>. SQL leaves the order of
  rows of equal weight open; SQLite returns them in the order of their insertion, which
  a stable sort on the negated weight gives.
\<close>

definition load_responses :: "pattern list \<Rightarrow> pattern list" where
  "load_responses table = sort_key (\<lambda>p. - weight p) table"

section \<open>The matcher\<close>

text \<open>The wall clock, as the two \<open>strftime\<close> calls of the handlers print it.\<close>

record clock =
  now_time :: pystr
  now_date :: pystr

definition handle_time_query :: "clock \<Rightarrow> pystr" where
  "handle_time_query K = u ''The current time is '' @ now_time K @ u '' on '' @ now_date K @ u ''.''"

definition handle_date_query :: "clock \<Rightarrow> pystr" where
  "handle_date_query K = u ''Today is '' @ now_date K @ u ''.''"

definition MSG_NOT_SURE :: pystr where
  "MSG_NOT_SURE = u ''I'm not sure how to respond to that.''"

text \<open>
  \<open>re.search(r'[\d\+\-\*\/\(\)\.\s]+', user_input)\<close>: the first maximal run of
  characters of the class, if the string has one.
\<close>

definition math_expr :: "unicode \<Rightarrow> pystr \<Rightarrow> pystr option" where
  "math_expr U s =
     (case dropWhile (\<lambda>c. \<not> (math_char U c \<or> is_space U c)) s of
        [] \<Rightarrow> None
      | r \<Rightarrow> Some (takeWhile (\<lambda>c. math_char U c \<or> is_space U c) r))"

text \<open>
  The loop of \<open>find_best_response\<close> over the loaded patterns, with the best match
  so far and its confidence, and the \<open>return\<close> after the loop.
\<close>

fun scan :: "unicode \<Rightarrow> platform \<Rightarrow> clock \<Rightarrow> pystr \<Rightarrow> pattern list \<Rightarrow> pystr option \<Rightarrow> rat
    \<Rightarrow> pystr \<times> rat" where
  "scan U P K s [] best_match best_confidence =
     (case best_match of
        None \<Rightarrow> (MSG_NOT_SURE, best_confidence)
      | Some r \<Rightarrow> (if r = [] then MSG_NOT_SURE else r, best_confidence))"
| "scan U P K s (p # ps) best_match best_confidence =
     (if re_search U (pattern p) s then
        (if category p = u ''math'' then
           (case math_expr U s of
              Some e \<Rightarrow> (handle_math U P e, weight p)
            | None \<Rightarrow> scan U P K s ps best_match best_confidence)
         else if category p = u ''time'' then (handle_time_query K, weight p)
         else if category p = u ''date'' then (handle_date_query K, weight p)
         else if response p \<noteq> [] then
           (if weight p > best_confidence then scan U P K s ps (Some (response p)) (weight p)
            else scan U P K s ps best_match best_confidence)
         else scan U P K s ps best_match best_confidence)
      else scan U P K s ps best_match best_confidence)"

text \<open>
  The two ways a pattern takes part in the scan: it ends the scan with a computed
  reply (a matching math pattern when the input holds a character of the expression
  class, a matching time or date pattern), or it is a matching pattern of another
  category with a stored reply, a candidate for the best match.
\<close>

definition special :: "unicode \<Rightarrow> pystr \<Rightarrow> pattern \<Rightarrow> bool" where
  "special U s p =
     (re_search U (pattern p) s \<and>
      ((category p = u ''math'' \<and> math_expr U s \<noteq> None) \<or> category p = u ''time''
        \<or> category p = u ''date''))"

definition regular :: "unicode \<Rightarrow> pystr \<Rightarrow> pattern \<Rightarrow> bool" where
  "regular U s p =
     (re_search U (pattern p) s \<and> category p \<noteq> u ''math'' \<and> category p \<noteq> u ''time''
      \<and> category p \<noteq> u ''date'' \<and> response p \<noteq> [])"

definition normalize :: "unicode \<Rightarrow> pystr \<Rightarrow> pystr" where
  "normalize U user_input = py_lower U (py_strip U user_input)"

definition find_best_response :: "unicode \<Rightarrow> platform \<Rightarrow> clock \<Rightarrow> pattern list \<Rightarrow> pystr
    \<Rightarrow> pystr \<times> rat" where
  "find_best_response U P K patterns user_input = scan U P K (normalize U user_input) patterns None 0"

section \<open>The conversation log and the statistics\<close>

text \<open>
  A row of the table \<open>conversations\<close>, without the columns the database fills in
  itself (\<open>id\<close>, \<open>timestamp\<close>). A \<open>weight\<close> and a \<open>confidence\<close> are carried as the
  rational that the program writes (\<open>0.1\<close> as one tenth); the \<open>REAL\<close> column holds the
  binary64 float nearest to it, and that float is what \<open>AVG\<close> reads.
\<close>

record exchange =
  user_input :: pystr
  bot_response :: pystr
  confidence :: rat

text \<open>
  A chatbot instance: its loaded patterns, its in-memory history, and the table
  \<open>conversations\<close> of the database file it is connected to.
\<close>

record bot =
  patterns :: "pattern list"
  conversation_history :: "(pystr \<times> pystr) list"
  conversations :: "exchange list"

text \<open>
  What a call meets outside the program: the clock, whether the database fails during
  the call (with the text of the exception it raises), and the text of the
  \<open>UnicodeEncodeError\<close> that binding a string with a lone surrogate raises.
\<close>

record env =
  wall_clock :: clock
  db_error :: "pystr option"
  codec_error :: "pystr \<Rightarrow> pystr"

text \<open>An exception is carried as its \<open>str(e)\<close>, all that \<open>get_response\<close> reads of it.\<close>

definition encodable :: "pystr \<Rightarrow> bool" where
  "encodable s = list_all (\<lambda>c. \<not> (55296 \<le> c \<and> c \<le> 57343)) s"

definition learn_from_conversation :: "env \<Rightarrow> bot \<Rightarrow> pystr \<Rightarrow> pystr \<Rightarrow> rat \<Rightarrow> pystr + bot" where
  "learn_from_conversation E b inp resp conf =
     (case db_error E of
        Some msg \<Rightarrow> Inl msg
      | None \<Rightarrow>
          if \<not> encodable inp then Inl (codec_error E inp)
          else if \<not> encodable resp then Inl (codec_error E resp)
          else Inr (b\<lparr>conversations := conversations b @
                 [\<lparr>user_input = inp, bot_response = resp, confidence = conf\<rparr>]\<rparr>))"

record stats =
  total_conversations :: nat
  average_confidence :: pyfloat
  unique_inputs :: nat

definition sql_real :: "rat \<Rightarrow> pyfloat" where
  "sql_real c = round64 (c < 0) \<bar>c\<bar>"

text \<open>
  \<open>AVG\<close> as SQLite computes it (from version 3.43 on) over values that are all
  \<open>REAL\<close>: the running sum \<open>rSum\<close> and the error term \<open>rErr\<close> of a
  Kahan-Babuska-Neumaier summation in binary64, started at zero; at the end the error
  term is added to the sum unless it is an infinity or a NaN, and the sum is divided by
  the number of rows. The result of an empty table is \<open>NULL\<close>, and so is a NaN.
\<close>

record SumCtx =
  rSum :: pyfloat
  rErr :: pyfloat

text \<open>\<open>fabs(x) > fabs(y)\<close>.\<close>

fun fabs_gt :: "pyfloat \<Rightarrow> pyfloat \<Rightarrow> bool" where
  "fabs_gt FNaN y = False"
| "fabs_gt x FNaN = False"
| "fabs_gt (FInf s) (FInf t) = False"
| "fabs_gt (FInf s) (FFinite t q) = True"
| "fabs_gt (FFinite s p) (FInf t) = False"
| "fabs_gt (FFinite s p) (FFinite t q) = (q < p)"

definition kahanBabuskaNeumaierStep :: "SumCtx \<Rightarrow> pyfloat \<Rightarrow> SumCtx" where
  "kahanBabuskaNeumaierStep p r =
     (let s = rSum p; t = fadd s r
      in \<lparr>rSum = t,
          rErr = fadd (rErr p) (if fabs_gt s r then fadd (fsub s t) r else fadd (fsub r t) s)\<rparr>)"

fun sqlite3IsOverflow :: "pyfloat \<Rightarrow> bool" where
  "sqlite3IsOverflow (FFinite s q) = False"
| "sqlite3IsOverflow x = True"

definition sql_avg :: "rat list \<Rightarrow> pyfloat option" where
  "sql_avg xs =
     (if xs = [] then None
      else let p = foldl kahanBabuskaNeumaierStep \<lparr>rSum = FFinite False 0, rErr = FFinite False 0\<rparr>
                     (map sql_real xs);
               r = (if sqlite3IsOverflow (rErr p) then rSum p else fadd (rSum p) (rErr p));
               a = fdiv r (round64 False (of_nat (length xs)))
           in if a = FNaN then None else Some a)"

text \<open>\<open>x or 0.0\<close>: the default replaces \<open>None\<close> and also a zero of either sign.\<close>

definition or_zero :: "pyfloat option \<Rightarrow> pyfloat" where
  "or_zero x = (case x of None \<Rightarrow> FFinite False 0 | Some a \<Rightarrow> if fzero a then FFinite False 0 else a)"

text \<open>
  \<open>round(x, 2)\<close> on a float: the exact value of the float is rounded to two decimals,
  a tie to the even neighbour, and the result is the float nearest to that decimal; an
  infinity is returned as it is.
\<close>

fun py_round2 :: "pyfloat \<Rightarrow> pyfloat" where
  "py_round2 (FFinite s q) = round64 s (of_int (round_half_even (q * 100)) / 100)"
| "py_round2 x = x"

definition get_conversation_stats :: "env \<Rightarrow> bot \<Rightarrow> pystr + stats" where
  "get_conversation_stats E b =
     (case db_error E of
        Some msg \<Rightarrow> Inl msg
      | None \<Rightarrow>
          (let total = length (conversations b);
               avg = or_zero (sql_avg (map confidence (conversations b)));
               unique = length (remdups (map user_input (conversations b)))
           in Inr \<lparr>total_conversations = total, average_confidence = py_round2 avg,
                   unique_inputs = unique\<rparr>))"

section \<open>The facade\<close>

definition MSG_SAY_SOMETHING :: pystr where
  "MSG_SAY_SOMETHING = u ''Please say something! I'm here to chat with you.''"

definition MSG_FIRST :: pystr where
  "MSG_FIRST = u ''We haven't chatted yet! This is our first conversation.''"

definition MSG_CLEARED :: pystr where
  "MSG_CLEARED = u ''Conversation history cleared! Starting fresh.''"

definition error_reply :: "pystr \<Rightarrow> pystr" where
  "error_reply msg = u ''I encountered an error: '' @ msg @ u ''. Please try rephrasing your message.''"

text \<open>\<open>xs[-n:]\<close> for a positive \<open>n\<close>: the last \<open>n\<close> elements, or all of them.\<close>

definition last_n :: "nat \<Rightarrow> 'a list \<Rightarrow> 'a list" where
  "last_n n xs = drop (length xs - n) xs"

fun join :: "pystr \<Rightarrow> pystr list \<Rightarrow> pystr" where
  "join sep [] = []"
| "join sep [x] = x"
| "join sep (x # xs) = x @ sep @ join sep xs"

definition history_text :: "(pystr \<times> pystr) list \<Rightarrow> pystr" where
  "history_text h = join [10] (map (\<lambda>(q, a). u ''You: '' @ q @ [10] @ u ''Me: '' @ a) h)"

definition stats_text :: "platform \<Rightarrow> stats \<Rightarrow> pystr" where
  "stats_text P st =
     u ''Chat Statistics:'' @ [10, 8226] @ u '' Total conversations: '' @ nat_str (total_conversations st)
     @ [10, 8226] @ u '' Average confidence: '' @ py_float_repr P (average_confidence st)
     @ [10, 8226] @ u '' Unique questions: '' @ nat_str (unique_inputs st)"

text \<open>
  The body of the \<open>try\<close> of \<open>get_response\<close>: the instance after the call and the reply,
  or the exception that left the body.
\<close>

definition get_response_try :: "unicode \<Rightarrow> platform \<Rightarrow> env \<Rightarrow> bot \<Rightarrow> pystr \<Rightarrow> pystr + bot \<times> pystr" where
  "get_response_try U P E b message =
     (if message = [] \<or> py_strip U message = [] then Inr (b, MSG_SAY_SOMETHING)
      else if py_in (u ''conversation history'') (py_lower U message)
              \<or> py_in (u ''chat history'') (py_lower U message) then
        (if conversation_history b \<noteq> []
         then Inr (b, u ''Here are our recent exchanges:'' @ [10, 10]
                       @ history_text (last_n 3 (conversation_history b)))
         else Inr (b, MSG_FIRST))
      else if py_in (u ''clear history'') (py_lower U message) then
        Inr (b\<lparr>conversation_history := []\<rparr>, MSG_CLEARED)
      else if py_in (u ''stats'') (py_lower U message)
              \<or> py_in (u ''statistics'') (py_lower U message) then
        (case get_conversation_stats E b of
           Inl msg \<Rightarrow> Inl msg
         | Inr st \<Rightarrow> Inr (b, stats_text P st))
      else
        (case find_best_response U P (wall_clock E) (patterns b) message of
           (resp, conf) \<Rightarrow>
             (case learn_from_conversation E b message resp conf of
                Inl msg \<Rightarrow> Inl msg
              | Inr b' \<Rightarrow>
                  (let h = conversation_history b' @ [(message, resp)]
                   in Inr (b'\<lparr>conversation_history := (if 20 < length h then last_n 20 h else h)\<rparr>,
                           resp)))))"

definition get_response :: "unicode \<Rightarrow> platform \<Rightarrow> env \<Rightarrow> bot \<Rightarrow> pystr \<Rightarrow> bot \<times> pystr" where
  "get_response U P E b message =
     (case get_response_try U P E b message of
        Inl msg \<Rightarrow> (b, error_reply msg)
      | Inr (b', reply) \<Rightarrow> (b', reply))"

text \<open>A new instance on a database file that holds the given two tables.\<close>

definition init :: "pattern list \<Rightarrow> exchange list \<Rightarrow> bot" where
  "init table rows =
     \<lparr>patterns = load_responses (if table = [] then load_initial_patterns else table),
      conversation_history = [], conversations = rows\<rparr>"

section \<open>Sequences of calls\<close>

text \<open>
  The inputs that reach the matcher: not empty, not blank, and none of the history,
  clear and statistics commands. \<open>clears\<close> are the inputs that the clear command
  intercepts.
\<close>

definition plain :: "unicode \<Rightarrow> pystr \<Rightarrow> bool" where
  "plain U message =
     (message \<noteq> [] \<and> py_strip U message \<noteq> []
      \<and> \<not> py_in (u ''conversation history'') (py_lower U message)
      \<and> \<not> py_in (u ''chat history'') (py_lower U message)
      \<and> \<not> py_in (u ''clear history'') (py_lower U message)
      \<and> \<not> py_in (u ''stats'') (py_lower U message)
      \<and> \<not> py_in (u ''statistics'') (py_lower U message))"

definition clears :: "unicode \<Rightarrow> pystr \<Rightarrow> bool" where
  "clears U message =
     (message \<noteq> [] \<and> py_strip U message \<noteq> []
      \<and> \<not> py_in (u ''conversation history'') (py_lower U message)
      \<and> \<not> py_in (u ''chat history'') (py_lower U message)
      \<and> py_in (u ''clear history'') (py_lower U message))"

text \<open>The inputs that the statistics command intercepts.\<close>

definition asks_stats :: "unicode \<Rightarrow> pystr \<Rightarrow> bool" where
  "asks_stats U message =
     (message \<noteq> [] \<and> py_strip U message \<noteq> []
      \<and> \<not> py_in (u ''conversation history'') (py_lower U message)
      \<and> \<not> py_in (u ''chat history'') (py_lower U message)
      \<and> \<not> py_in (u ''clear history'') (py_lower U message)
      \<and> (py_in (u ''stats'') (py_lower U message) \<or> py_in (u ''statistics'') (py_lower U message)))"

text \<open>Calls on one instance, one after the other, each in its own environment.\<close>

fun run :: "unicode \<Rightarrow> platform \<Rightarrow> bot \<Rightarrow> (env \<times> pystr) list \<Rightarrow> bot \<times> pystr list" where
  "run U P b [] = (b, [])"
| "run U P b ((E, m) # cs) =
     (case get_response U P E b m of
        (b', r) \<Rightarrow> (case run U P b' cs of (b'', rs) \<Rightarrow> (b'', r # rs)))"

text \<open>Every call of the sequence reaches the matcher and leaves the \<open>try\<close> without an exception.\<close>

fun all_logged :: "unicode \<Rightarrow> platform \<Rightarrow> bot \<Rightarrow> (env \<times> pystr) list \<Rightarrow> bool" where
  "all_logged U P b [] = True"
| "all_logged U P b ((E, m) # cs) =
     (plain U m \<and> \<not> isl (get_response_try U P E b m)
      \<and> all_logged U P (fst (get_response U P E b m)) cs)"

section \<open>Reference points\<close>

text \<open>
  The grammar \<open>^[0-9+\-*/().]+$\<close> as the specification writes it, with ASCII digits
  only, to compare with the class the source uses.
\<close>

definition spec_grammar :: "pystr \<Rightarrow> bool" where
  "spec_grammar s =
     (s \<noteq> [] \<and> list_all (\<lambda>c. ascii_digit c \<or> c \<in> {43, 45, 42, 47, 40, 41, 46}) s)"

text \<open>
  A concrete platform and a concrete part of the Unicode database for the evaluations
  at explicit inputs: CPython's defaults on a 64-bit machine, the Arabic-Indic digits
  U+0660 to U+0669 as the decimal digits beyond ASCII, and the whitespace beyond ASCII.
  The fields that no evaluation below reads are left open.
\<close>

definition CPYTHON :: platform where
  "CPYTHON = \<lparr>int_max_str_digits = 4300, maxsize = 2 ^ 63 - 1, float_pow = undefined,
     float_floor_div = undefined, complex_op = undefined, float_repr = undefined,
     complex_repr = undefined\<rparr>"

definition UNICODE_PART :: unicode where
  "UNICODE_PART = \<lparr>uc_decimal = (\<lambda>c. 1632 \<le> c \<and> c \<le> 1641),
     uc_space = (\<lambda>c. c \<in> set [133, 160, 5760, 8232, 8233, 8239, 8287, 12288]
                     \<or> (8192 \<le> c \<and> c \<le> 8202)),
     uc_lower = undefined, uc_ieq = undefined\<rparr>"

text \<open>
  The statistics as the specification words them: the number of rows, the mean of
  the confidences rounded to two decimals (0.0 for an empty log), and the number of
  distinct inputs under exact comparison. The mean and its rounding are those of the
  numbers, computed exactly, with a tie going to the even neighbour as in Python's
  \<open>round\<close>.
\<close>

definition spec_mean :: "rat list \<Rightarrow> rat" where
  "spec_mean cs = sum_list cs / of_nat (length cs)"

definition spec_round2 :: "rat \<Rightarrow> rat" where
  "spec_round2 x = of_int (round_half_even (x * 100)) / 100"

definition spec_stats :: "exchange list \<Rightarrow> nat \<times> rat \<times> nat" where
  "spec_stats rows =
     (length rows,
      (if rows = [] then 0 else spec_round2 (spec_mean (map confidence rows))),
      card (set (map user_input rows)))"

text \<open>
  An instance with an empty pattern list and an empty log, a healthy environment and
  one whose database fails, for the evaluations at explicit inputs.
\<close>

definition BARE :: bot where
  "BARE = \<lparr>patterns = [], conversation_history = [], conversations = []\<rparr>"

definition HEALTHY :: env where
  "HEALTHY = \<lparr>wall_clock = \<lparr>now_time = u ''12:00:00'', now_date = u ''Monday, January 01, 2024''\<rparr>,
     db_error = None, codec_error = (\<lambda>s. u ''surrogates not allowed'')\<rparr>"

definition BROKEN :: env where
  "BROKEN = HEALTHY\<lparr>db_error := Some (u ''disk I/O error'')\<rparr>"

text \<open>A log of six exchanges, three of them with inputs that differ at most in case.\<close>

definition SAMPLE_LOG :: "exchange list" where
  "SAMPLE_LOG =
     [\<lparr>user_input = u ''hi'', bot_response = u ''Hello! How can I help you today?'', confidence = 1\<rparr>,
      \<lparr>user_input = u ''Hi'', bot_response = u ''Hello! How can I help you today?'', confidence = 1\<rparr>,
      \<lparr>user_input = u ''hi'', bot_response = u ''Hello! How can I help you today?'', confidence = 1\<rparr>,
      \<lparr>user_input = u ''2+2'', bot_response = u ''The answer is: 4'', confidence = 2\<rparr>,
      \<lparr>user_input = u ''zzz'', bot_response = MSG_FALLBACK_SEED, confidence = 1 / 10\<rparr>,
      \<lparr>user_input = u ''yyy'', bot_response = MSG_FALLBACK_SEED, confidence = 1 / 10\<rparr>]"

text \<open>
  A log of four exchanges on the default seed whose confidences 1, 2, 2 and 0.1 have
  the mean 1.275, half way between two numbers of two decimals.
\<close>

definition HALFWAY_LOG :: "exchange list" where
  "HALFWAY_LOG =
     [\<lparr>user_input = u ''hi'', bot_response = u ''Hello! How can I help you today?'', confidence = 1\<rparr>,
      \<lparr>user_input = u ''today'', bot_response = u ''Today is Monday, January 01, 2024.'', confidence = 2\<rparr>,
      \<lparr>user_input = u ''2+2'', bot_response = u ''The answer is: 4'', confidence = 2\<rparr>,
      \<lparr>user_input = u ''zzz'', bot_response = MSG_FALLBACK_SEED, confidence = 1 / 10\<rparr>]"

text \<open>A log of three exchanges whose confidences are whole numbers.\<close>

definition WHOLE_LOG :: "exchange list" where
  "WHOLE_LOG =
     [\<lparr>user_input = u ''hi'', bot_response = u ''Hello! How can I help you today?'', confidence = 1\<rparr>,
      \<lparr>user_input = u ''2+2'', bot_response = u ''The answer is: 4'', confidence = 2\<rparr>,
      \<lparr>user_input = u ''2+2'', bot_response = u ''The answer is: 4'', confidence = 2\<rparr>]"

text \<open>Two patterns of weight 0 that match the same input.\<close>

definition tie_a :: pattern where
  "tie_a = mk (lit (u ''a'')) (u ''A'') ''general'' 0"

definition tie_b :: pattern where
  "tie_b = mk (lit (u ''a'')) (u ''B'') ''general'' 0"

section \<open>Binary64 arithmetic\<close>

text \<open>
  \<open>ilog2\<close> is the binary exponent, which gives a rule to evaluate \<open>round64\<close> at a
  given number; whole numbers below \<open>2 ^ 53\<close> are floats, and sums of such numbers
  are exact, also in the compensated summation of \<open>AVG\<close>; an integer of \<open>2 ^ 1024\<close> or
  more has no float.
\<close>

lemma ilog2_bounds:
  assumes "0 < q"
  shows "2 powi (ilog2 q) \<le> q \<and> q < 2 powi (ilog2 q + 1)"
proof -
  obtain a b where ab: "quotient_of q = (a, b)" by (cases "quotient_of q")
  have b: "0 < b" using ab by (rule quotient_of_denom_pos)
  have q: "q = of_int a / of_int b" using ab by (rule quotient_of_div)
  have a: "0 < a" using assms b q by (simp add: zero_less_divide_iff)
  define fa where "fa = floorlog 2 (nat a)"
  define fb where "fb = floorlog 2 (nat b)"
  define d where "d = int fa - int fb"
  have ba: "2 ^ (fa - 1) \<le> nat a \<and> nat a < 2 ^ fa"
    unfolding fa_def using a by (intro floorlog_bounds) simp_all
  have bb: "2 ^ (fb - 1) \<le> nat b \<and> nat b < 2 ^ fb"
    unfolding fb_def using b by (intro floorlog_bounds) simp_all
  have fa: "0 < fa" using ba by (cases fa) auto
  have fb: "0 < fb" using bb by (cases fb) auto
  have a1: "(2::rat) powi (int fa - 1) \<le> of_int a"
  proof -
    have "(2::rat) ^ (fa - 1) \<le> of_nat (nat a)" using ba by (metis of_nat_le_iff of_nat_numeral of_nat_power)
    moreover have "nat (int fa - 1) = fa - 1" using fa by simp
    moreover have "0 \<le> int fa - 1" using fa by simp
    ultimately show ?thesis using a by (simp add: power_int_def)
  qed
  have a2: "of_int a < (2::rat) powi (int fa)"
  proof -
    have "of_nat (nat a) < (2::rat) ^ fa" using ba by (metis of_nat_less_iff of_nat_numeral of_nat_power)
    then show ?thesis using a by simp
  qed
  have b1: "(2::rat) powi (int fb - 1) \<le> of_int b"
  proof -
    have "(2::rat) ^ (fb - 1) \<le> of_nat (nat b)" using bb by (metis of_nat_le_iff of_nat_numeral of_nat_power)
    moreover have "nat (int fb - 1) = fb - 1" using fb by simp
    moreover have "0 \<le> int fb - 1" using fb by simp
    ultimately show ?thesis using b by (simp add: power_int_def)
  qed
  have b2: "of_int b < (2::rat) powi (int fb)"
  proof -
    have "of_nat (nat b) < (2::rat) ^ fb" using bb by (metis of_nat_less_iff of_nat_numeral of_nat_power)
    then show ?thesis using b by simp
  qed
  have up: "q < 2 powi (d + 1)"
  proof -
    have "of_int a / of_int b < (2::rat) powi (int fa) / 2 powi (int fb - 1)"
      using a a2 b1 by (intro frac_less) simp_all
    also have "\<dots> = 2 powi (int fa - (int fb - 1))" by (simp add: power_int_diff)
    also have "int fa - (int fb - 1) = d + 1" by (simp add: d_def)
    finally show ?thesis by (simp add: q)
  qed
  have lo: "2 powi (d - 1) \<le> q"
  proof -
    have "(2::rat) powi (int fa - 1) / 2 powi (int fb) \<le> of_int a / of_int b"
      using a1 b2 b a by (intro frac_le) simp_all
    moreover have "(2::rat) powi (int fa - 1) / 2 powi (int fb) = 2 powi (int fa - 1 - int fb)"
      by (simp add: power_int_diff)
    moreover have "int fa - 1 - int fb = d - 1" by (simp add: d_def)
    ultimately show ?thesis by (simp add: q)
  qed
  have il: "ilog2 q = (if 2 powi d \<le> q then d else d - 1)"
    by (simp add: ilog2_def ab Let_def fa_def fb_def d_def)
  show ?thesis
  proof (cases "2 powi d \<le> q")
    case True
    then show ?thesis using up il by simp
  next
    case False
    then show ?thesis using lo il by simp
  qed
qed

lemma ilog2_unique:
  assumes "2 powi e \<le> q" "q < 2 powi (e + 1)"
  shows "ilog2 q = e"
proof -
  have pos: "0 < q" using assms(1) by (rule less_le_trans [rotated]) simp
  note bs = ilog2_bounds [OF pos]
  have "\<not> ilog2 q < e"
  proof
    assume "ilog2 q < e"
    then have "ilog2 q + 1 \<le> e" by simp
    then have "(2::rat) powi (ilog2 q + 1) \<le> 2 powi e" by (intro power_int_increasing) simp_all
    then show False using bs assms(1) by simp
  qed
  moreover have "\<not> e < ilog2 q"
  proof
    assume "e < ilog2 q"
    then have "e + 1 \<le> ilog2 q" by simp
    then have "(2::rat) powi (e + 1) \<le> 2 powi (ilog2 q)" by (intro power_int_increasing) simp_all
    then show False using bs assms(2) by simp
  qed
  ultimately show ?thesis by simp
qed

lemma round64_normal:
  assumes "2 powi e \<le> q" "q < 2 powi (e + 1)" "- 1022 \<le> e"
    and m: "round_half_even (q / 2 powi (e - 52)) = m"
    and small: "of_int m * 2 powi (e - 52) < (2::rat) ^ 1024"
  shows "round64 s q = FFinite s (of_int m * 2 powi (e - 52))"
proof -
  have pos: "0 < q" using assms(1) by (rule less_le_trans [rotated]) simp
  have il: "ilog2 q = e" using assms(1,2) by (rule ilog2_unique)
  have mx: "max e (- 1022) = e" using assms(3) by simp
  have z: "q \<noteq> 0" using pos by simp
  have ns: "\<not> (2::rat) ^ 1024 \<le> of_int m * 2 powi (e - 52)" using small by simp
  show ?thesis
    using z ns unfolding round64_def Let_def il mx m by (simp only: if_False)
qed

lemma round_half_even_near:
  assumes "of_int m - 1 / 2 < x" "x < of_int m + 1 / 2"
  shows "round_half_even x = m"
proof (cases "of_int m \<le> x")
  case True
  then have "\<lfloor>x\<rfloor> = m" using assms(2) by (intro floor_unique) simp_all
  then show ?thesis using assms(2) by (simp add: round_half_even_def Let_def)
next
  case False
  then have "\<lfloor>x\<rfloor> = m - 1" using assms(1) by (intro floor_unique) simp_all
  then show ?thesis using assms(1) False by (simp add: round_half_even_def Let_def)
qed

lemma round_half_even_tie:
  assumes "x = of_int m + 1 / 2"
  shows "round_half_even x = (if even m then m else m + 1)"
proof -
  have "\<lfloor>x\<rfloor> = m" using assms by (intro floor_unique) simp_all
  then show ?thesis using assms by (simp add: round_half_even_def Let_def)
qed

lemma round64_0: "round64 s 0 = FFinite s 0"
  by (simp add: round64_def)

lemma round_half_even_int: "round_half_even (of_int k) = k"
  by (simp add: round_half_even_def Let_def)

lemma ilog2_int: "0 < n \<Longrightarrow> nat n < 2 ^ w \<Longrightarrow> ilog2 (of_int n) \<le> int w - 1"
proof -
  assume n: "0 < n" "nat n < 2 ^ w"
  have q: "quotient_of (of_int n) = (n, 1)"
    using quotient_of_int [of n] by (simp add: Rat.of_int_def)
  have "floorlog 2 (nat n) \<le> w"
    using n(2) by (rule floorlog_leI) simp_all
  moreover have "floorlog 2 (nat 1) = 1"
    by (simp add: compute_floorlog)
  ultimately show ?thesis
    by (simp add: ilog2_def q Let_def)
qed

lemma round64_int_exact:
  assumes "0 < n" "n < 2 ^ 53"
  shows "round64 s (of_int n) = FFinite s (of_int n)"
proof -
  define e where "e = max (ilog2 (of_int n)) (- 1022)"
  define k where "k = nat (52 - e)"
  have "nat n < 2 ^ 53" using assms by (simp add: nat_less_iff)
  then have "ilog2 (of_int n) \<le> int 53 - 1" using assms(1) by (intro ilog2_int)
  then have e: "e \<le> 52" by (simp add: e_def)
  have ulp: "(2::rat) powi (e - 52) = 1 / 2 ^ k"
  proof -
    have "e - 52 = - int k" using e by (simp add: k_def)
    then have "(2::rat) powi (e - 52) = 2 powi (- int k)" by (simp only:)
    also have "\<dots> = 1 / 2 ^ k" by (simp add: power_int_minus divide_inverse)
    finally show ?thesis .
  qed
  have quo: "(of_int n :: rat) / 2 powi (e - 52) = of_int (n * 2 ^ k)"
    by (simp add: ulp)
  have r: "of_int (round_half_even ((of_int n :: rat) / 2 powi (e - 52))) * 2 powi (e - 52) = (of_int n :: rat)"
    by (simp only: quo round_half_even_int) (simp add: ulp)
  have small: "\<not> (2::rat) ^ 1024 \<le> of_int n"
  proof -
    have "n < 2 ^ 1024" using assms(2) by (rule less_le_trans) simp
    then have "(of_int n :: rat) < of_int (2 ^ 1024)" by (simp only: of_int_less_iff)
    then show ?thesis by simp
  qed
  have "n \<noteq> 0" using assms(1) by simp
  then have z: "(of_int n :: rat) \<noteq> 0" by simp
  show ?thesis
    using z small r unfolding round64_def Let_def e_def by (simp only: if_False)
qed

lemma round64_nat_exact: "0 \<le> n \<Longrightarrow> n < 2 ^ 53 \<Longrightarrow> round64 False (of_int n) = FFinite False (of_int n)"
  by (cases "n = 0") (simp_all add: round64_0 round64_int_exact)

lemma round64_not_nan: "round64 s q \<noteq> FNaN"
  by (simp add: round64_def Let_def)

lemma or_zero_round64: "or_zero (Some (round64 False q)) = round64 False q"
  by (auto simp: or_zero_def round64_def Let_def)

lemma sql_real_int: "0 \<le> k \<Longrightarrow> k < 2 ^ 53 \<Longrightarrow> sql_real (of_int k) = FFinite False (of_int k)"
  by (simp add: sql_real_def round64_nat_exact)

lemma fadd_int:
  "0 \<le> a \<Longrightarrow> 0 \<le> b \<Longrightarrow> a + b < 2 ^ 53 \<Longrightarrow>
   fadd (FFinite False (of_int a)) (FFinite False (of_int b)) = FFinite False (of_int (a + b))"
  using round64_int_exact [of "a + b" False]
  by (cases "a + b = 0") (auto simp: signed_def Let_def simp flip: of_int_add)

lemma fsub_int:
  assumes "0 \<le> a" "0 \<le> b" "a + b < 2 ^ 53"
  shows "fsub (FFinite False (of_int a)) (FFinite False (of_int (a + b))) = FFinite (b \<noteq> 0) (of_int b)"
proof (cases "b = 0")
  case True
  then show ?thesis by (simp add: fsub_def signed_def)
next
  case False
  then have "0 < b" "b < 2 ^ 53" using assms by simp_all
  then have "round64 True (of_int b) = FFinite True (of_int b)" by (rule round64_int_exact)
  then show ?thesis using False \<open>0 < b\<close> by (simp add: fsub_def signed_def Let_def)
qed

lemma fadd_cancel:
  "0 \<le> b \<Longrightarrow> fadd (FFinite (b \<noteq> 0) (of_int b)) (FFinite False (of_int b)) = FFinite False 0"
  by (cases "b = 0") (simp_all add: signed_def)

lemma kbn_int:
  assumes "0 \<le> a" "0 \<le> b" "a + b < 2 ^ 53"
  shows "kahanBabuskaNeumaierStep \<lparr>rSum = FFinite False (of_int a), rErr = FFinite False 0\<rparr>
           (FFinite False (of_int b)) =
         \<lparr>rSum = FFinite False (of_int (a + b)), rErr = FFinite False 0\<rparr>"
proof -
  have t: "fadd (FFinite False (of_int a)) (FFinite False (of_int b)) = FFinite False (of_int (a + b))"
    using assms by (rule fadd_int)
  have c1: "fadd (fsub (FFinite False (of_int a)) (FFinite False (of_int (a + b)))) (FFinite False (of_int b))
      = FFinite False 0"
    using assms by (simp only: fsub_int fadd_cancel)
  have "fsub (FFinite False (of_int b)) (FFinite False (of_int (b + a))) = FFinite (a \<noteq> 0) (of_int a)"
    using assms by (intro fsub_int) simp_all
  then have c2: "fadd (fsub (FFinite False (of_int b)) (FFinite False (of_int (a + b)))) (FFinite False (of_int a))
      = FFinite False 0"
    using assms(1) by (simp only: add.commute [of a b] fadd_cancel)
  have z: "fadd (FFinite False 0) (FFinite False 0) = FFinite False 0"
    by (simp add: signed_def)
  show ?thesis
    unfolding kahanBabuskaNeumaierStep_def Let_def
    by (simp only: SumCtx.simps t c1 c2 z if_cancel)
qed

lemma kbn_ints:
  "\<forall>k \<in> set ks. 0 \<le> k \<Longrightarrow> 0 \<le> a \<Longrightarrow> a + sum_list ks < 2 ^ 53 \<Longrightarrow>
   foldl kahanBabuskaNeumaierStep \<lparr>rSum = FFinite False (of_int a), rErr = FFinite False 0\<rparr>
     (map sql_real (map of_int ks)) =
   \<lparr>rSum = FFinite False (of_int (a + sum_list ks)), rErr = FFinite False 0\<rparr>"
proof (induction ks arbitrary: a)
  case Nil
  then show ?case by simp
next
  case (Cons k ks)
  have nn: "0 \<le> sum_list ks" using Cons.prems(1) by (intro sum_list_nonneg) simp
  have k: "0 \<le> k" "k < 2 ^ 53" "a + k < 2 ^ 53" using Cons.prems nn by simp_all
  have step: "kahanBabuskaNeumaierStep \<lparr>rSum = FFinite False (of_int a), rErr = FFinite False 0\<rparr>
           (sql_real (of_int k)) = \<lparr>rSum = FFinite False (of_int (a + k)), rErr = FFinite False 0\<rparr>"
    using Cons.prems(2) k by (simp only: sql_real_int kbn_int)
  have "foldl kahanBabuskaNeumaierStep \<lparr>rSum = FFinite False (of_int (a + k)), rErr = FFinite False 0\<rparr>
     (map sql_real (map of_int ks)) =
   \<lparr>rSum = FFinite False (of_int (a + k + sum_list ks)), rErr = FFinite False 0\<rparr>"
    using Cons.prems k by (intro Cons.IH) (simp_all add: add.assoc)
  then show ?case
    by (simp add: step add.assoc del: of_int_add)
qed

lemma sql_avg_ints:
  assumes "ks \<noteq> []" "\<forall>k \<in> set ks. 0 \<le> k" "sum_list ks < 2 ^ 53" "int (length ks) < 2 ^ 53"
  shows "sql_avg (map of_int ks) = Some (round64 False (of_int (sum_list ks) / of_nat (length ks)))"
proof -
  have nn: "0 \<le> sum_list ks" using assms(2) by (intro sum_list_nonneg) simp
  have f: "foldl kahanBabuskaNeumaierStep \<lparr>rSum = FFinite False 0, rErr = FFinite False 0\<rparr>
     (map sql_real (map of_int ks)) =
     \<lparr>rSum = FFinite False (of_int (sum_list ks)), rErr = FFinite False 0\<rparr>"
    using kbn_ints [of ks 0] assms by simp
  have r: "fadd (FFinite False (of_int (sum_list ks))) (FFinite False 0) = FFinite False (of_int (sum_list ks))"
    using fadd_int [of "sum_list ks" 0] nn assms(3) by simp
  have n: "round64 False (of_nat (length ks)) = FFinite False (of_nat (length ks))"
    using round64_nat_exact [of "int (length ks)"] assms(4) by simp
  have l: "(of_nat (length ks) :: rat) \<noteq> 0" using assms(1) by simp
  show ?thesis
    using assms(1) l by (simp add: sql_avg_def Let_def f r n round64_not_nan del: map_map fadd.simps)
qed

lemma round_half_even_ge: "of_int k \<le> x \<Longrightarrow> k \<le> round_half_even x"
proof -
  assume "of_int k \<le> x"
  then have "k \<le> \<lfloor>x\<rfloor>" by (simp add: le_floor_iff)
  moreover have "\<lfloor>x\<rfloor> \<le> round_half_even x" by (simp add: round_half_even_def Let_def)
  ultimately show ?thesis by simp
qed

lemma round64_overflow:
  assumes "2 ^ 1024 \<le> q" "ilog2 q \<le> 1076"
  shows "round64 s q = FInf s"
proof -
  define e where "e = max (ilog2 q) (- 1022)"
  define k where "k = nat (1076 - e)"
  define r where "r = round_half_even (q / 2 powi (e - 52))"
  define B where "B = (2::rat) ^ 1024"
  have e: "e \<le> 1076" "- 1022 \<le> e"
    using assms(2) by (simp_all add: e_def)
  have pos: "(0::rat) < 2 powi (e - 52)" by simp
  have "(2::rat) powi (e - 52) * 2 powi (int k) = 2 powi (e - 52 + int k)"
    by (simp add: power_int_add)
  also have "e - 52 + int k = 1024" using e by (simp add: k_def)
  also have "(2::rat) powi 1024 = B" by (simp add: B_def)
  finally have ulp: "(2::rat) powi (e - 52) * 2 ^ k = B"
    by simp
  have qB: "B \<le> q" using assms(1) by (simp add: B_def)
  have "(2::rat) ^ k \<le> q / 2 powi (e - 52)"
    using qB ulp pos by (simp add: pos_le_divide_eq mult.commute)
  then have "of_int (2 ^ k) \<le> q / 2 powi (e - 52)" by simp
  then have "2 ^ k \<le> r"
    unfolding r_def by (rule round_half_even_ge)
  then have "(of_int (2 ^ k) :: rat) \<le> of_int r"
    by (simp only: of_int_le_iff)
  then have "(of_int (2 ^ k) :: rat) * 2 powi (e - 52) \<le> of_int r * 2 powi (e - 52)"
    using pos by (simp add: mult_right_mono)
  then have "2 powi (e - 52) * (2::rat) ^ k \<le> of_int r * 2 powi (e - 52)"
    by (simp add: mult.commute)
  then have big: "B \<le> of_int r * 2 powi (e - 52)"
    by (simp only: ulp)
  have "q \<noteq> 0" using qB by (auto simp: B_def)
  then show ?thesis
    using big unfolding round64_def Let_def e_def r_def B_def by (simp only: if_False if_True)
qed

lemma float_of_int_overflow:
  "2 ^ 1024 \<le> n \<Longrightarrow> n < 2 ^ 1077 \<Longrightarrow> float_of_int n = Inl OverflowError"
proof -
  assume n: "2 ^ 1024 \<le> n" "n < 2 ^ 1077"
  have pos: "0 < n" using n(1) by (smt (verit) zero_less_power)
  have a: "(2::rat) ^ 1024 \<le> of_int n"
    using n(1) by (metis of_int_le_iff of_int_numeral of_int_power)
  have "nat n < 2 ^ 1077" using n(2) pos by (simp add: nat_less_iff)
  then have "ilog2 (of_int n) \<le> int 1077 - 1" using pos by (intro ilog2_int)
  then have b: "ilog2 (of_int n) \<le> 1076" by simp
  have "round64 False (of_int n) = FInf False"
    using a b by (rule round64_overflow)
  then show ?thesis using pos by (simp add: float_of_int_def)
qed

lemma float_of_int_10_309: "float_of_int (10 ^ 309) = Inl OverflowError"
  by (rule float_of_int_overflow) simp_all

lemma r64_0: "round64 s (1) = FFinite s (1)"
proof -
  have "round64 s (1) = FFinite s (of_int 4503599627370496 * 2 powi (0 - 52))"
    by (rule round64_normal) (simp_all add: round_half_even_near)
  then show ?thesis by simp
qed

lemma r64_1: "round64 s (2) = FFinite s (2)"
proof -
  have "round64 s (2) = FFinite s (of_int 4503599627370496 * 2 powi (1 - 52))"
    by (rule round64_normal) (simp_all add: round_half_even_near)
  then show ?thesis by simp
qed

lemma r64_2: "round64 s (3) = FFinite s (3)"
proof -
  have "round64 s (3) = FFinite s (of_int 6755399441055744 * 2 powi (1 - 52))"
    by (rule round64_normal) (simp_all add: round_half_even_near)
  then show ?thesis by simp
qed

lemma r64_3: "round64 s (5) = FFinite s (5)"
proof -
  have "round64 s (5) = FFinite s (of_int 5629499534213120 * 2 powi (2 - 52))"
    by (rule round64_normal) (simp_all add: round_half_even_near)
  then show ?thesis by simp
qed

lemma r64_4: "round64 s (1 / 10) = FFinite s (3602879701896397 / 36028797018963968)"
proof -
  have "round64 s (1 / 10) = FFinite s (of_int 7205759403792794 * 2 powi (-4 - 52))"
    by (rule round64_normal) (simp_all add: round_half_even_near)
  then show ?thesis by simp
qed

lemma r64_5: "round64 s (183746864796716237 / 36028797018963968) = FFinite s (2871044762448691 / 562949953421312)"
proof -
  have "round64 s (183746864796716237 / 36028797018963968) = FFinite s (of_int 5742089524897382 * 2 powi (2 - 52))"
    by (rule round64_normal) (simp_all add: round_half_even_near)
  then show ?thesis by simp
qed

lemma r64_6: "round64 s (56294995342131 / 562949953421312) = FFinite s (56294995342131 / 562949953421312)"
proof -
  have "round64 s (56294995342131 / 562949953421312) = FFinite s (of_int 7205759403792768 * 2 powi (-4 - 52))"
    by (rule round64_normal) (simp_all add: round_half_even_near)
  then show ?thesis by simp
qed

lemma r64_7: "round64 s (13 / 36028797018963968) = FFinite s (13 / 36028797018963968)"
proof -
  have "round64 s (13 / 36028797018963968) = FFinite s (of_int 7318349394477056 * 2 powi (-52 - 52))"
    by (rule round64_normal) (simp_all add: round_half_even_near)
  then show ?thesis by simp
qed

lemma r64_8: "round64 s (4) = FFinite s (4)"
proof -
  have "round64 s (4) = FFinite s (of_int 4503599627370496 * 2 powi (2 - 52))"
    by (rule round64_normal) (simp_all add: round_half_even_near)
  then show ?thesis by simp
qed

lemma r64_9: "round64 s (2871044762448691 / 2251799813685248) = FFinite s (2871044762448691 / 2251799813685248)"
proof -
  have "round64 s (2871044762448691 / 2251799813685248) = FFinite s (of_int 5742089524897382 * 2 powi (0 - 52))"
    by (rule round64_normal) (simp_all add: round_half_even_near)
  then show ?thesis by simp
qed

lemma r64_10: "round64 s (127 / 100) = FFinite s (2859785763380265 / 2251799813685248)"
proof -
  have "round64 s (127 / 100) = FFinite s (of_int 5719571526760530 * 2 powi (0 - 52))"
    by (rule round64_normal) (simp_all add: round_half_even_near)
  then show ?thesis by simp
qed

lemma r64_11: "round64 s (187349744498612621 / 36028797018963968) = FFinite s (1463669878895411 / 281474976710656)"
proof -
  have "round64 s (187349744498612621 / 36028797018963968) = FFinite s (of_int 5854679515581644 * 2 powi (2 - 52))"
    by (rule round64_normal) (simp_all add: round_half_even_near)
  then show ?thesis by simp
qed

lemma r64_12: "round64 s (13 / 18014398509481984) = FFinite s (13 / 18014398509481984)"
proof -
  have "round64 s (13 / 18014398509481984) = FFinite s (of_int 7318349394477056 * 2 powi (-51 - 52))"
    by (rule round64_normal) (simp_all add: round_half_even_near)
  then show ?thesis by simp
qed

lemma r64_13: "round64 s (93674872249306317 / 18014398509481984) = FFinite s (5854679515581645 / 1125899906842624)"
proof -
  have "round64 s (93674872249306317 / 18014398509481984) = FFinite s (of_int 5854679515581645 * 2 powi (2 - 52))"
    by (rule round64_normal) (simp_all add: round_half_even_near)
  then show ?thesis by simp
qed

lemma r64_14: "round64 s (6) = FFinite s (6)"
proof -
  have "round64 s (6) = FFinite s (of_int 6755399441055744 * 2 powi (2 - 52))"
    by (rule round64_normal) (simp_all add: round_half_even_near)
  then show ?thesis by simp
qed

lemma r64_15: "round64 s (1951559838527215 / 2251799813685248) = FFinite s (1951559838527215 / 2251799813685248)"
proof -
  have "round64 s (1951559838527215 / 2251799813685248) = FFinite s (of_int 7806239354108860 * 2 powi (-1 - 52))"
    by (rule round64_normal) (simp_all add: round_half_even_near)
  then show ?thesis by simp
qed

lemma r64_16: "round64 s (87 / 100) = FFinite s (7836263351624663 / 9007199254740992)"
proof -
  have "round64 s (87 / 100) = FFinite s (of_int 7836263351624663 * 2 powi (-1 - 52))"
    by (rule round64_normal) (simp_all add: round_half_even_near)
  then show ?thesis by simp
qed

lemma r64_17: "round64 s (32 / 25) = FFinite s (5764607523034235 / 4503599627370496)"
proof -
  have "round64 s (32 / 25) = FFinite s (of_int 5764607523034235 * 2 powi (0 - 52))"
    by (rule round64_normal) (simp_all add: round_half_even_near)
  then show ?thesis by simp
qed

lemma r64_18: "round64 s (5 / 3) = FFinite s (7505999378950827 / 4503599627370496)"
proof -
  have "round64 s (5 / 3) = FFinite s (of_int 7505999378950827 * 2 powi (0 - 52))"
    by (rule round64_normal) (simp_all add: round_half_even_near)
  then show ?thesis by simp
qed

lemma r64_19: "round64 s (167 / 100) = FFinite s (940126422213591 / 562949953421312)"
proof -
  have "round64 s (167 / 100) = FFinite s (of_int 7521011377708728 * 2 powi (0 - 52))"
    by (rule round64_normal) (simp_all add: round_half_even_near)
  then show ?thesis by simp
qed

lemmas r64 = r64_0 r64_1 r64_2 r64_3 r64_4 r64_5 r64_6 r64_7 r64_8 r64_9 r64_10 r64_11 r64_12 r64_13 r64_14 r64_15 r64_16 r64_17 r64_18 r64_19

section \<open>Evaluating the arithmetic evaluator on concrete input\<close>

lemmas char_defs = is_digit_def ascii_digit_def is_space_def ascii_space_def math_char_def

lemma clean_5p3t2: "clean U (u ''5 + 3 * 2'') = u ''5+3*2''"
  by (simp add: clean_def u_def char_defs)

lemma whitelisted_5p3t2: "whitelisted U (u ''5+3*2'')"
  by (simp add: whitelisted_def u_def char_defs)












section \<open>The whitelist\<close>

lemma clean_chars: "list_all (math_char U) (clean U s)"
  by (auto simp: clean_def list_all_iff)

lemma whitelisted_clean: "whitelisted U (clean U s) = (clean U s \<noteq> [])"
  using clean_chars [of U s] by (auto simp: whitelisted_def)

lemma clean_ascii: "list_all (\<lambda>c. c < 128) s \<Longrightarrow> clean U s \<noteq> [] \<Longrightarrow> spec_grammar (clean U s)"
  by (auto simp: spec_grammar_def clean_def list_all_iff math_char_def is_digit_def)

lemma clean_arabic_three: "clean UNICODE_PART [1635] = [1635]"
  by (simp add: clean_def char_defs UNICODE_PART_def)

lemma whitelisted_arabic_three: "whitelisted UNICODE_PART [1635]"
  by (simp add: whitelisted_def char_defs UNICODE_PART_def)

lemma py_eval_arabic_three: "py_eval P [1635] = Inl SyntaxError"
  by (simp add: py_eval_def py_compile_def MAXLEVEL_def ascii_digit_def)

lemma clean_abc: "clean U (u ''abc'') = []"
  by (simp add: clean_def u_def char_defs)

text \<open>
  C2, as stated, fails: \<open>\d\<close> in a Python \<open>str\<close> pattern matches every Unicode
  decimal digit. The one-character string U+0663 (ARABIC-INDIC DIGIT THREE) survives the
  cleaning and does not match \<open>^[0-9+\-*/().]+$\<close>, yet the evaluator does not return the
  whitelist message: it hands the string to \<open>eval\<close>, which raises \<open>SyntaxError\<close>, and
  replies with the generic message.
\<close>

theorem whitelist_counterexample:
  "\<not> spec_grammar (clean UNICODE_PART [1635]) \<and>
   evaluated UNICODE_PART CPYTHON [1635] = [[1635]] \<and>
   handle_math UNICODE_PART CPYTHON [1635] = MSG_UNSOLVED \<and>
   MSG_UNSOLVED \<noteq> MSG_ONLY_BASIC"
  apply (simp add: clean_arabic_three whitelisted_arabic_three py_eval_arabic_three
      evaluated_def handle_math_def handle_math_try_def)
  apply (simp add: spec_grammar_def ascii_digit_def MSG_UNSOLVED_def MSG_ONLY_BASIC_def u_def)
  done

text \<open>
  C2, amended. With "digit" read as the source's \<open>\d\<close> (an ASCII digit or any other
  Unicode decimal digit): if the cleaned string does not match
  \<open>^[\d+\-*/().]+$\<close>, which happens exactly when it is empty, the evaluator returns the
  whitelist message and evaluates nothing; every string it hands to \<open>eval\<close> is the
  cleaned string, non-empty and made of such digits and \<open>+ - * / ( ) .\<close> only; and for
  an ASCII input that is a string of the grammar \<open>^[0-9+\-*/().]+$\<close>.
\<close>

theorem whitelist_before_eval:
  "(\<not> whitelisted U (clean U s) \<longrightarrow> handle_math U P s = MSG_ONLY_BASIC \<and> evaluated U P s = []) \<and>
   (\<forall>e \<in> set (evaluated U P s). e = clean U s \<and> e \<noteq> [] \<and> list_all (math_char U) e) \<and>
   (whitelisted U (clean U s) = (clean U s \<noteq> [])) \<and>
   (list_all (\<lambda>c. c < 128) s \<longrightarrow> (\<forall>e \<in> set (evaluated U P s). spec_grammar e))"
  using clean_chars [of U s] clean_ascii [of s U]
  by (auto simp: handle_math_def handle_math_try_def evaluated_def Let_def whitelisted_clean
      whitelisted_def)

theorem whitelist_before_eval_witness:
  "\<not> whitelisted UNICODE_PART (clean UNICODE_PART (u ''abc'')) \<and>
   handle_math UNICODE_PART CPYTHON (u ''abc'') = MSG_ONLY_BASIC \<and>
   evaluated UNICODE_PART CPYTHON (u ''abc'') = [] \<and>
   list_all (\<lambda>c. c < 128) (u ''5 + 3 * 2'') \<and>
   evaluated UNICODE_PART CPYTHON (u ''5 + 3 * 2'') = [u ''5+3*2''] \<and>
   spec_grammar (u ''5+3*2'')"
proof -
  have a: "\<not> whitelisted UNICODE_PART (clean UNICODE_PART (u ''abc''))"
    by (simp add: clean_abc whitelisted_def)
  have b: "list_all (\<lambda>c. c < 128) (u ''5 + 3 * 2'')"
    by (simp add: u_def)
  have c: "evaluated UNICODE_PART CPYTHON (u ''5 + 3 * 2'') = [u ''5+3*2'']"
    by (simp add: evaluated_def handle_math_try_def clean_5p3t2 whitelisted_5p3t2 Let_def)
  have d: "handle_math UNICODE_PART CPYTHON (u ''abc'') = MSG_ONLY_BASIC \<and>
      evaluated UNICODE_PART CPYTHON (u ''abc'') = []"
    using a whitelist_before_eval [of UNICODE_PART "u ''abc''" CPYTHON] by blast
  have e: "\<forall>e \<in> set (evaluated UNICODE_PART CPYTHON (u ''5 + 3 * 2'')). e \<noteq> [] \<and> spec_grammar e"
    using b whitelist_before_eval [of UNICODE_PART "u ''5 + 3 * 2''" CPYTHON] by blast
  have f: "spec_grammar (u ''5+3*2'')"
    using c e by simp
  show ?thesis
    using a b c d f by blast
qed

section \<open>Failures and results of the evaluation\<close>









lemma handle_math_nonempty: "handle_math U P s \<noteq> []"
  by (auto simp: handle_math_def handle_math_try_def Let_def MSG_ONLY_BASIC_def MSG_DIV_ZERO_def MSG_UNSOLVED_def MSG_ANSWER_def u_def
      split: sum.splits pyexc.splits)

lemma float_of_int_0: "float_of_int 0 = Inr (FFinite False 0)"
  by (simp add: float_of_int_def round64_def)

lemma zero_divisor:
  "op = Div \<or> op = FloorDiv \<Longrightarrow> binary P op (PyInt a) (PyInt 0) = Inl ZeroDivisionError"
  "op = Div \<or> op = FloorDiv \<Longrightarrow> binary P op (PyFloat x) (PyInt 0) = Inl ZeroDivisionError"
  "op = Div \<or> op = FloorDiv \<Longrightarrow> fzero y \<Longrightarrow> binary P op (PyFloat x) (PyFloat y) = Inl ZeroDivisionError"
  "op = Div \<or> op = FloorDiv \<Longrightarrow> fzero y \<Longrightarrow> float_of_int a = Inr x \<Longrightarrow>
     binary P op (PyInt a) (PyFloat y) = Inl ZeroDivisionError"
  by (auto simp: int_true_divide_def as_floats_def float_of_int_0)








section \<open>The matcher: load order and best match\<close>

lemma mk_sel [simp]:
  "pattern (mk r t c w) = r" "response (mk r t c w) = t" "category (mk r t c w) = u c" "weight (mk r t c w) = w"
  by (simp_all add: mk_def)

lemmas seed_defs = seed_greeting_def seed_how_are_you_def seed_identity_def seed_capabilities_def
  seed_math_def seed_time_def seed_date_def seed_gratitude_def seed_farewell_def seed_help_def
  seed_humor_def seed_age_def seed_fallback_def

lemma seed_weights [simp]:
  "weight seed_greeting = 1" "weight seed_how_are_you = 1" "weight seed_identity = 1"
  "weight seed_capabilities = 1" "weight seed_math = 2" "weight seed_time = 2" "weight seed_date = 2"
  "weight seed_gratitude = 1" "weight seed_farewell = 1" "weight seed_help = 1" "weight seed_humor = 1"
  "weight seed_age = 1" "weight seed_fallback = 1 / 10"
  by (simp_all add: seed_defs)

lemma load_seed:
  "load_responses load_initial_patterns =
     [seed_math, seed_time, seed_date, seed_greeting, seed_how_are_you, seed_identity,
      seed_capabilities, seed_gratitude, seed_farewell, seed_help, seed_humor, seed_age, seed_fallback]"
  by (simp add: load_responses_def load_initial_patterns_def)

lemma scan_skip:
  "\<not> special U s p \<Longrightarrow> \<not> regular U s p \<Longrightarrow> scan U P K s (p # ps) bm bc = scan U P K s ps bm bc"
  by (auto simp: special_def regular_def split: option.splits)

lemma scan_regular:
  "regular U s p \<Longrightarrow> scan U P K s (p # ps) bm bc =
     (if weight p > bc then scan U P K s ps (Some (response p)) (weight p) else scan U P K s ps bm bc)"
  by (auto simp: regular_def)

lemma scan_below:
  "\<forall>q \<in> set ps. \<not> special U s q \<and> (regular U s q \<longrightarrow> weight q \<le> bc) \<Longrightarrow>
   scan U P K s ps bm bc = scan U P K s [] bm bc"
proof (induction ps)
  case Nil
  then show ?case by simp
next
  case (Cons q ps)
  show ?case
  proof (cases "regular U s q")
    case True
    with Cons show ?thesis by (simp add: scan_regular del: scan.simps)
  next
    case False
    with Cons show ?thesis by (simp add: scan_skip del: scan.simps)
  qed
qed

lemma scan_prefix:
  "\<forall>q \<in> set pre. \<not> special U s q \<and> (regular U s q \<longrightarrow> weight q < w) \<Longrightarrow> bc < w \<Longrightarrow>
   \<exists>bm' bc'. bc' < w \<and> scan U P K s (pre @ rest) bm bc = scan U P K s rest bm' bc'"
proof (induction pre arbitrary: bm bc)
  case Nil
  then show ?case by auto
next
  case (Cons q pre)
  show ?case
  proof (cases "regular U s q")
    case True
    then have lt: "weight q < w" using Cons.prems by simp
    show ?thesis
    proof (cases "weight q > bc")
      case True
      from Cons.IH [of "weight q" "Some (response q)"] Cons.prems lt
      obtain bm' bc' where "bc' < w" "scan U P K s (pre @ rest) (Some (response q)) (weight q) = scan U P K s rest bm' bc'"
        by auto
      with True \<open>regular U s q\<close> show ?thesis
        by (auto simp add: scan_regular simp del: scan.simps)
    next
      case False
      from Cons.IH [of bc bm] Cons.prems
      obtain bm' bc' where "bc' < w" "scan U P K s (pre @ rest) bm bc = scan U P K s rest bm' bc'"
        by auto
      with False \<open>regular U s q\<close> show ?thesis
        by (auto simp add: scan_regular simp del: scan.simps)
    qed
  next
    case False
    from Cons.IH [of bc bm] Cons.prems
    obtain bm' bc' where "bc' < w" "scan U P K s (pre @ rest) bm bc = scan U P K s rest bm' bc'"
      by auto
    with False Cons.prems show ?thesis
      by (auto simp add: scan_skip simp del: scan.simps)
  qed
qed

lemma scan_winner:
  assumes "regular U s p" "bc < weight p"
    and "\<forall>q \<in> set pre. \<not> special U s q \<and> (regular U s q \<longrightarrow> weight q < weight p)"
    and "\<forall>q \<in> set post. \<not> special U s q \<and> (regular U s q \<longrightarrow> weight q \<le> weight p)"
  shows "scan U P K s (pre @ p # post) bm bc = (response p, weight p)"
proof -
  from scan_prefix [OF assms(3) assms(2), where rest = "p # post" and bm = bm and P = P and K = K]
  obtain bm' bc' where a: "bc' < weight p"
    "scan U P K s (pre @ p # post) bm bc = scan U P K s (p # post) bm' bc'" by blast
  have "scan U P K s (p # post) bm' bc' = scan U P K s post (Some (response p)) (weight p)"
    using a(1) assms(1) by (simp add: scan_regular del: scan.simps)
  also have "\<dots> = scan U P K s [] (Some (response p)) (weight p)"
    using assms(4) by (rule scan_below)
  also have "\<dots> = (response p, weight p)"
    using assms(1) by (simp add: regular_def)
  finally show ?thesis using a(2) by simp
qed

lemma load_order:
  "sorted (map (\<lambda>p. - weight p) (load_responses table)) \<and>
   filter (\<lambda>p. weight p = w) (load_responses table) = filter (\<lambda>p. weight p = w) table"
proof -
  have "filter (\<lambda>p. - weight p = - w) (sort_key (\<lambda>p. - weight p) table) = filter (\<lambda>p. - weight p = - w) table"
    by (rule sort_key_stable)
  then show ?thesis by (simp add: load_responses_def)
qed


text \<open>
  C8, amended. Let no pattern end the scan with a computed reply, and let \<open>p\<close> be a
  matched pattern of another category with a stored reply whose weight is above 0, the
  initial best confidence, such that the candidates before it in load order weigh
  strictly less and the candidates after it weigh no more. Then \<open>p\<close>, the first of the
  candidates of highest weight in load order, supplies the response, and the confidence
  is its weight: a later candidate of equal weight does not replace it. Load order is
  descending in weight and keeps the order of registration among patterns of equal
  weight.
\<close>

theorem first_of_highest_weight:
  "(regular U (normalize U text) p \<and> 0 < weight p \<and>
    (\<forall>q \<in> set pre. \<not> special U (normalize U text) q \<and>
        (regular U (normalize U text) q \<longrightarrow> weight q < weight p)) \<and>
    (\<forall>q \<in> set post. \<not> special U (normalize U text) q \<and>
        (regular U (normalize U text) q \<longrightarrow> weight q \<le> weight p))
    \<longrightarrow> find_best_response U P K (pre @ p # post) text = (response p, weight p)) \<and>
   sorted (map (\<lambda>p. - weight p) (load_responses table)) \<and>
   filter (\<lambda>p. weight p = w) (load_responses table) = filter (\<lambda>p. weight p = w) table"
  using scan_winner [of U "normalize U text" p 0 pre post P K None] load_order [of table w]
  by (simp add: find_best_response_def)

lemma normalize_a: "normalize U (u ''a'') = u ''a''"
  by (simp add: normalize_def py_strip_def py_lower_def u_def is_space_def ascii_space_def ascii_lower_def)

lemma search_a: "re_search U (lit (u ''a'')) (u ''a'')"
  by (simp add: u_def ascii_lower_def)

text \<open>
  C8, as stated, fails for a highest weight that is not above 0: the best confidence
  starts at 0.0 and a candidate replaces the best match only on a strictly greater
  weight, so two matched patterns that tie on weight 0 are both passed over, and the
  reply is the last-resort text with confidence 0.0, not the first pattern's response.
\<close>

theorem zero_weight_tie_counterexample:
  "regular UNICODE_PART (normalize UNICODE_PART (u ''a'')) tie_a \<and>
   regular UNICODE_PART (normalize UNICODE_PART (u ''a'')) tie_b \<and>
   weight tie_a = weight tie_b \<and>
   load_responses [tie_a, tie_b] = [tie_a, tie_b] \<and>
   find_best_response UNICODE_PART CPYTHON (wall_clock HEALTHY) (load_responses [tie_a, tie_b]) (u ''a'')
     = (MSG_NOT_SURE, 0) \<and>
   MSG_NOT_SURE \<noteq> response tie_a"
  apply (simp add: find_best_response_def normalize_a regular_def tie_a_def tie_b_def search_a load_responses_def)
  apply (simp add: u_def MSG_NOT_SURE_def)
  done

theorem first_of_highest_weight_witness:
  "regular UNICODE_PART (normalize UNICODE_PART (u ''a'')) (mk (lit (u ''a'')) (u ''A'') ''general'' 1) \<and>
   (0::rat) < weight (mk (lit (u ''a'')) (u ''A'') ''general'' 1) \<and>
   find_best_response UNICODE_PART CPYTHON (wall_clock HEALTHY)
     ([] @ mk (lit (u ''a'')) (u ''A'') ''general'' 1 # [mk (lit (u ''a'')) (u ''B'') ''general'' 1]) (u ''a'')
     = (u ''A'', 1)"
proof -
  let ?p = "mk (lit (u ''a'')) (u ''A'') ''general'' 1"
  let ?q = "mk (lit (u ''a'')) (u ''B'') ''general'' 1"
  have a: "regular UNICODE_PART (normalize UNICODE_PART (u ''a'')) ?p"
    by (simp add: normalize_a regular_def search_a) (simp add: u_def)
  have b: "(0::rat) < weight ?p" by simp
  have c: "\<forall>q \<in> set []. \<not> special UNICODE_PART (normalize UNICODE_PART (u ''a'')) q \<and>
        (regular UNICODE_PART (normalize UNICODE_PART (u ''a'')) q \<longrightarrow> weight q < weight ?p)" by simp
  have d: "\<forall>q \<in> set [?q]. \<not> special UNICODE_PART (normalize UNICODE_PART (u ''a'')) q \<and>
        (regular UNICODE_PART (normalize UNICODE_PART (u ''a'')) q \<longrightarrow> weight q \<le> weight ?p)"
    by (simp add: special_def) (simp add: u_def)
  have e: "find_best_response UNICODE_PART CPYTHON (wall_clock HEALTHY) ([] @ ?p # [?q]) (u ''a'') = (response ?p, weight ?p)"
    using a b c d first_of_highest_weight [of UNICODE_PART "u ''a''" ?p "[]" "[?q]" CPYTHON "wall_clock HEALTHY"]
    by blast
  show ?thesis using a b e by simp
qed

lemma normalize_q: "normalize U (u ''what is 5 + 3 * 2?'') = u ''what is 5 + 3 * 2?''"
  by (simp add: normalize_def py_strip_def py_lower_def u_def is_space_def ascii_space_def ascii_lower_def)

lemma search_q: "re_search U MATH_SEED (u ''what is 5 + 3 * 2?'')"
  by (simp add: MATH_SEED_def Plus_def u_def char_defs)

lemma math_expr_q: "math_expr U (u ''what is 5 + 3 * 2?'') = Some (u '' '')"
  by (simp add: math_expr_def u_def char_defs)

lemma handle_math_blank: "handle_math U P (u '' '') = MSG_ONLY_BASIC"
  by (simp add: handle_math_def handle_math_try_def clean_def whitelisted_def u_def char_defs)

text \<open>
  C3, at the input the front ends advertise ("try: 'what is 5 + 3 * 2?'"). The math
  pattern of the default seed matches and the matcher returns at once with that
  pattern's weight 2.0, but the substring it hands to the evaluator is the first run of
  characters of the class \<open>[\d+\-*/().\s]\<close>, which is the blank after "what": the reply
  is the whitelist message, not the value of \<open>5 + 3 * 2\<close>.
\<close>

theorem math_substring_failing_input:
  "find_best_response U P K (load_responses load_initial_patterns) (u ''what is 5 + 3 * 2?'') = (MSG_ONLY_BASIC, 2)"
  by (simp add: find_best_response_def normalize_q load_seed seed_math_def search_q math_expr_q handle_math_blank)

section \<open>The history ring\<close>

lemma last_n_id: "length xs \<le> n \<Longrightarrow> last_n n xs = xs"
  by (simp add: last_n_def)

lemma length_last_n: "length (last_n n xs) \<le> n"
  by (simp add: last_n_def)

lemma last_n_append: "last_n n (last_n n xs @ ys) = last_n n (xs @ ys)"
  by (cases "length xs \<le> n") (auto simp: last_n_def add.commute)

lemma scan_nonempty: "fst (scan U P K s ps bm bc) \<noteq> []"
  by (induction ps arbitrary: bm bc)
    (auto simp: handle_math_nonempty handle_time_query_def handle_date_query_def MSG_NOT_SURE_def u_def
      split: option.splits)

lemma find_best_response_nonempty: "fst (find_best_response U P K ps m) \<noteq> []"
  by (simp add: find_best_response_def scan_nonempty)

lemma try_plain:
  "plain U m \<Longrightarrow> get_response_try U P E b m =
     (case learn_from_conversation E b m (fst (find_best_response U P (wall_clock E) (patterns b) m))
             (snd (find_best_response U P (wall_clock E) (patterns b) m)) of
        Inl msg \<Rightarrow> Inl msg
      | Inr b' \<Rightarrow>
          Inr (b'\<lparr>conversation_history :=
                  last_n 20 (conversation_history b' @ [(m, fst (find_best_response U P (wall_clock E) (patterns b) m))])\<rparr>,
               fst (find_best_response U P (wall_clock E) (patterns b) m)))"
  by (auto simp: plain_def get_response_try_def Let_def last_n_id split: prod.splits sum.splits)

lemma plain_fails:
  "plain U m \<Longrightarrow> isl (get_response_try U P E b m) =
     (db_error E \<noteq> None \<or> \<not> encodable m
      \<or> \<not> encodable (fst (find_best_response U P (wall_clock E) (patterns b) m)))"
  by (auto simp: try_plain learn_from_conversation_def split: option.splits)

lemma step_plain:
  assumes "plain U m" "\<not> isl (get_response_try U P E b m)"
  shows "get_response U P E b m =
     (b\<lparr>conversations := conversations b @
           [\<lparr>user_input = m, bot_response = fst (find_best_response U P (wall_clock E) (patterns b) m),
             confidence = snd (find_best_response U P (wall_clock E) (patterns b) m)\<rparr>],
         conversation_history :=
           last_n 20 (conversation_history b @ [(m, fst (find_best_response U P (wall_clock E) (patterns b) m))])\<rparr>,
      fst (find_best_response U P (wall_clock E) (patterns b) m))"
  using assms
  by (auto simp: get_response_def try_plain learn_from_conversation_def split: option.splits if_splits)

lemma step_not_plain:
  "\<not> plain U m \<Longrightarrow> conversation_history (fst (get_response U P E b m)) =
     (if clears U m then [] else conversation_history b)"
  by (auto simp: plain_def clears_def get_response_def get_response_try_def split: sum.splits)

lemma step_bound:
  "length (conversation_history b) \<le> 20 \<Longrightarrow> length (conversation_history (fst (get_response U P E b m))) \<le> 20"
proof (cases "plain U m")
  case True
  assume "length (conversation_history b) \<le> 20"
  then show ?thesis
    using True by (auto simp: get_response_def try_plain learn_from_conversation_def length_last_n split: option.splits)
next
  case False
  assume "length (conversation_history b) \<le> 20"
  then show ?thesis using False by (simp add: step_not_plain)
qed

lemma run_bound:
  "length (conversation_history b) \<le> 20 \<Longrightarrow> length (conversation_history (fst (run U P b calls))) \<le> 20"
proof (induction calls arbitrary: b)
  case Nil
  then show ?case by simp
next
  case (Cons c cs)
  obtain E m where c: "c = (E, m)" by (cases c)
  from Cons.prems have "length (conversation_history (fst (get_response U P E b m))) \<le> 20"
    by (rule step_bound)
  from Cons.IH [OF this] show ?case
    by (simp add: c case_prod_beta)
qed

lemma run_length: "length (snd (run U P b calls)) = length calls"
  by (induction calls arbitrary: b) (auto simp: case_prod_beta)

lemma run_history:
  "all_logged U P b calls \<Longrightarrow> length (conversation_history b) \<le> 20 \<Longrightarrow>
   conversation_history (fst (run U P b calls)) =
     last_n 20 (conversation_history b @ zip (map snd calls) (snd (run U P b calls)))"
proof (induction calls arbitrary: b)
  case Nil
  then show ?case by (simp add: last_n_id)
next
  case (Cons c cs)
  obtain E m where c: "c = (E, m)" by (cases c)
  let ?r = "fst (find_best_response U P (wall_clock E) (patterns b) m)"
  let ?b1 = "fst (get_response U P E b m)"
  from Cons.prems c have pl: "plain U m" and ok: "\<not> isl (get_response_try U P E b m)"
    and rest: "all_logged U P ?b1 cs" by simp_all
  have h1: "conversation_history ?b1 = last_n 20 (conversation_history b @ [(m, ?r)])"
    and r1: "snd (get_response U P E b m) = ?r"
    using step_plain [OF pl ok] by simp_all
  have "conversation_history (fst (run U P ?b1 cs)) =
      last_n 20 (conversation_history ?b1 @ zip (map snd cs) (snd (run U P ?b1 cs)))"
    using Cons.IH [OF rest step_bound [OF Cons.prems(2)]] .
  also have "\<dots> = last_n 20 ((conversation_history b @ [(m, ?r)]) @ zip (map snd cs) (snd (run U P ?b1 cs)))"
    by (simp only: h1 last_n_append)
  finally show ?case
    using r1 by (simp add: c case_prod_beta)
qed


text \<open>
  C4. If the history ring holds at most 20 entries before a call, it holds at most 20
  after it, and so after any sequence of calls (a new instance starts with none). After
  21 calls on a fresh instance that each reach the matcher and write their exchange,
  the ring is the sequence of the (input, response) pairs of these calls without the
  first: the last 20, in order. A call that does not reach the matcher (an empty or
  blank input, a history, clear or statistics command) leaves the ring as it was,
  except the clear command, which empties it.
\<close>

theorem history_ring:
  "(length (conversation_history b) \<le> 20 \<longrightarrow>
      length (conversation_history (fst (get_response U P E b m))) \<le> 20 \<and>
      length (conversation_history (fst (run U P b calls))) \<le> 20) \<and>
   (all_logged U P b calls \<and> conversation_history b = [] \<and> length calls = 21 \<longrightarrow>
      conversation_history (fst (run U P b calls)) = tl (zip (map snd calls) (snd (run U P b calls))) \<and>
      length (conversation_history (fst (run U P b calls))) = 20) \<and>
   (\<not> plain U m \<longrightarrow>
      conversation_history (fst (get_response U P E b m)) = (if clears U m then [] else conversation_history b))"
proof -
  have a: "conversation_history (fst (run U P b calls)) = tl (zip (map snd calls) (snd (run U P b calls)))
      \<and> length (conversation_history (fst (run U P b calls))) = 20"
    if h: "all_logged U P b calls" "conversation_history b = []" "length calls = 21"
  proof -
    have len: "length (zip (map snd calls) (snd (run U P b calls))) = 21"
      using h(3) by (simp add: run_length)
    have "conversation_history (fst (run U P b calls)) = last_n 20 (zip (map snd calls) (snd (run U P b calls)))"
      using run_history [OF h(1)] h(2) by simp
    also have "\<dots> = tl (zip (map snd calls) (snd (run U P b calls)))"
      using len by (simp add: last_n_def drop_Suc)
    finally show ?thesis using len by simp
  qed
  show ?thesis
    using a step_bound [of b U P E m] run_bound [of b U P calls] step_not_plain [of U m P E b]
    by blast
qed

lemma plain_a: "plain UNICODE_PART (u ''a'')"
  by (simp add: plain_def py_strip_def py_lower_def u_def is_space_def ascii_space_def ascii_lower_def UNICODE_PART_def)

lemma bare_reply: "find_best_response U P K [] m = (MSG_NOT_SURE, 0)"
  by (simp add: find_best_response_def)

lemma encodable_a: "encodable (u ''a'')" "encodable MSG_NOT_SURE"
  by (simp_all add: encodable_def u_def MSG_NOT_SURE_def)

lemma bare_logged:
  "patterns b = [] \<Longrightarrow> all_logged UNICODE_PART CPYTHON b (replicate n (HEALTHY, u ''a''))"
proof (induction n arbitrary: b)
  case 0
  then show ?case by simp
next
  case (Suc n)
  have ok: "\<not> isl (get_response_try UNICODE_PART CPYTHON HEALTHY b (u ''a''))"
    using Suc.prems by (simp add: plain_fails plain_a bare_reply encodable_a HEALTHY_def)
  have "patterns (fst (get_response UNICODE_PART CPYTHON HEALTHY b (u ''a''))) = []"
    using Suc.prems by (simp add: step_plain [OF plain_a ok])
  from Suc.IH [OF this] ok show ?case
    by (simp add: plain_a)
qed

theorem history_ring_witness:
  "length (conversation_history BARE) \<le> 20 \<and>
   length (conversation_history (fst (get_response UNICODE_PART CPYTHON HEALTHY BARE (u ''a'')))) \<le> 20 \<and>
   all_logged UNICODE_PART CPYTHON BARE (replicate 21 (HEALTHY, u ''a'')) \<and>
   conversation_history BARE = [] \<and>
   length (replicate 21 (HEALTHY, u ''a'')) = 21 \<and>
   conversation_history (fst (run UNICODE_PART CPYTHON BARE (replicate 21 (HEALTHY, u ''a'')))) =
     tl (zip (map snd (replicate 21 (HEALTHY, u ''a'')))
             (snd (run UNICODE_PART CPYTHON BARE (replicate 21 (HEALTHY, u ''a''))))) \<and>
   length (conversation_history (fst (run UNICODE_PART CPYTHON BARE (replicate 21 (HEALTHY, u ''a''))))) = 20 \<and>
   \<not> plain UNICODE_PART (u ''clear history'') \<and> clears UNICODE_PART (u ''clear history'') \<and>
   conversation_history (fst (get_response UNICODE_PART CPYTHON HEALTHY BARE (u ''clear history''))) = []"
proof -
  have a: "length (conversation_history BARE) \<le> 20" "conversation_history BARE = []" "patterns BARE = []"
    by (simp_all add: BARE_def)
  have b: "all_logged UNICODE_PART CPYTHON BARE (replicate 21 (HEALTHY, u ''a''))"
    using a(3) by (rule bare_logged)
  have c: "length (replicate 21 (HEALTHY, u ''a'')) = 21" by simp
  have d: "\<not> plain UNICODE_PART (u ''clear history'')" "clears UNICODE_PART (u ''clear history'')"
    by (simp_all add: plain_def clears_def py_strip_def py_lower_def u_def is_space_def ascii_space_def
        ascii_lower_def UNICODE_PART_def)
  note t1 = history_ring [of BARE UNICODE_PART CPYTHON HEALTHY "u ''a''" "replicate 21 (HEALTHY, u ''a'')"]
  note t2 = history_ring [of BARE UNICODE_PART CPYTHON HEALTHY "u ''clear history''" "[]"]
  have e: "length (conversation_history (fst (get_response UNICODE_PART CPYTHON HEALTHY BARE (u ''a'')))) \<le> 20"
    using a(1) t1 by blast
  have f: "conversation_history (fst (run UNICODE_PART CPYTHON BARE (replicate 21 (HEALTHY, u ''a'')))) =
     tl (zip (map snd (replicate 21 (HEALTHY, u ''a'')))
             (snd (run UNICODE_PART CPYTHON BARE (replicate 21 (HEALTHY, u ''a''))))) \<and>
     length (conversation_history (fst (run UNICODE_PART CPYTHON BARE (replicate 21 (HEALTHY, u ''a''))))) = 20"
    using a(2) b c t1 by blast
  have g: "conversation_history (fst (get_response UNICODE_PART CPYTHON HEALTHY BARE (u ''clear history''))) = []"
    using d t2 by presburger
  show ?thesis
    using a(1) a(2) b c d e f g by blast
qed

section \<open>The facade: logging and failures\<close>

text \<open>
  C10. For an input that reaches the matcher (not empty, not blank, no command) and
  whose call leaves the \<open>try\<close> without an exception, \<open>get_response\<close> returns the
  matcher's response, which is not empty, and the log after the call is the log before
  it followed by one row: the message as it was passed (neither trimmed nor
  lowercased), the string returned to the caller, and the matcher's confidence. Such a
  call raises inside the \<open>try\<close> exactly when the database fails or the message or the
  response holds a lone surrogate, which UTF-8 cannot encode.
\<close>

theorem exchange_logged:
  "(plain U m \<and> \<not> isl (get_response_try U P E b m) \<longrightarrow>
      snd (get_response U P E b m) = fst (find_best_response U P (wall_clock E) (patterns b) m) \<and>
      snd (get_response U P E b m) \<noteq> [] \<and>
      conversations (fst (get_response U P E b m)) =
        conversations b @
          [\<lparr>user_input = m, bot_response = snd (get_response U P E b m),
            confidence = snd (find_best_response U P (wall_clock E) (patterns b) m)\<rparr>]) \<and>
   (plain U m \<longrightarrow>
      isl (get_response_try U P E b m) =
        (db_error E \<noteq> None \<or> \<not> encodable m
         \<or> \<not> encodable (fst (find_best_response U P (wall_clock E) (patterns b) m))))"
  using step_plain [of U m P E b] plain_fails [of U m P E b]
    find_best_response_nonempty [of U P "wall_clock E" "patterns b" m]
  by auto

lemma plain_hello: "plain UNICODE_PART (u ''Hello There'')"
  by (simp add: plain_def py_strip_def py_lower_def u_def is_space_def ascii_space_def ascii_lower_def UNICODE_PART_def)

lemma bare_ok: "\<not> isl (get_response_try UNICODE_PART CPYTHON HEALTHY BARE (u ''Hello There''))"
  by (simp add: plain_fails plain_hello BARE_def bare_reply encodable_a HEALTHY_def) (simp add: encodable_def u_def)

theorem exchange_logged_witness:
  "plain UNICODE_PART (u ''Hello There'') \<and>
   \<not> isl (get_response_try UNICODE_PART CPYTHON HEALTHY BARE (u ''Hello There'')) \<and>
   snd (get_response UNICODE_PART CPYTHON HEALTHY BARE (u ''Hello There'')) = MSG_NOT_SURE \<and>
   conversations (fst (get_response UNICODE_PART CPYTHON HEALTHY BARE (u ''Hello There''))) =
     [\<lparr>user_input = u ''Hello There'', bot_response = MSG_NOT_SURE, confidence = 0\<rparr>]"
proof -
  note t = exchange_logged [of UNICODE_PART "u ''Hello There''" CPYTHON HEALTHY BARE]
  have a: "find_best_response UNICODE_PART CPYTHON (wall_clock HEALTHY) (patterns BARE) (u ''Hello There'') = (MSG_NOT_SURE, 0)"
    by (simp add: BARE_def bare_reply)
  have b: "conversations BARE = []" by (simp add: BARE_def)
  have c: "snd (get_response UNICODE_PART CPYTHON HEALTHY BARE (u ''Hello There'')) = MSG_NOT_SURE"
    using t plain_hello bare_ok a by simp
  have d: "conversations (fst (get_response UNICODE_PART CPYTHON HEALTHY BARE (u ''Hello There''))) =
     [\<lparr>user_input = u ''Hello There'', bot_response = MSG_NOT_SURE, confidence = 0\<rparr>]"
    using t plain_hello bare_ok a b c by simp
  show ?thesis using plain_hello bare_ok c d by blast
qed

lemma try_stats:
  "asks_stats U m \<Longrightarrow> get_response_try U P E b m =
     (case get_conversation_stats E b of Inl msg \<Rightarrow> Inl msg | Inr st \<Rightarrow> Inr (b, stats_text P st))"
  by (auto simp: asks_stats_def get_response_try_def)

lemma stats_fails: "isl (get_conversation_stats E b) = (db_error E \<noteq> None)"
  by (auto simp: get_conversation_stats_def Let_def split: option.splits)

lemma try_other:
  "\<not> plain U m \<Longrightarrow> \<not> asks_stats U m \<Longrightarrow> \<not> isl (get_response_try U P E b m)"
  by (auto simp: plain_def asks_stats_def get_response_try_def)

lemma fails_iff:
  "isl (get_response_try U P E b m) =
     ((plain U m \<and> (db_error E \<noteq> None \<or> \<not> encodable m
          \<or> \<not> encodable (fst (find_best_response U P (wall_clock E) (patterns b) m))))
      \<or> (asks_stats U m \<and> db_error E \<noteq> None))"
proof (cases "plain U m")
  case True
  then have "\<not> asks_stats U m" by (auto simp: plain_def asks_stats_def)
  with True show ?thesis by (simp add: plain_fails)
next
  case False
  show ?thesis
  proof (cases "asks_stats U m")
    case True
    have "isl (get_response_try U P E b m) = isl (get_conversation_stats E b)"
      using True by (simp add: try_stats split: sum.splits)
    with False True show ?thesis by (simp add: stats_fails)
  next
    case False
    with \<open>\<not> plain U m\<close> show ?thesis using try_other [of U m P E b] by simp
  qed
qed

lemma failed_unchanged: "isl (get_response_try U P E b m) \<Longrightarrow> fst (get_response U P E b m) = b"
  by (auto simp: get_response_def split: sum.splits)

lemma plain_db_error:
  "plain U m \<Longrightarrow> db_error E = Some msg \<Longrightarrow> get_response U P E b m =
     (b, u ''I encountered an error: '' @ msg @ u ''. Please try rephrasing your message.'')"
  by (simp add: get_response_def try_plain learn_from_conversation_def error_reply_def)

lemma plain_codec_error:
  "plain U m \<Longrightarrow> db_error E = None \<Longrightarrow> \<not> encodable m \<Longrightarrow> get_response U P E b m =
     (b, u ''I encountered an error: '' @ codec_error E m @ u ''. Please try rephrasing your message.'')"
  by (simp add: get_response_def try_plain learn_from_conversation_def error_reply_def)

lemma plain_codec_error_response:
  "plain U m \<Longrightarrow> db_error E = None \<Longrightarrow> encodable m \<Longrightarrow>
   \<not> encodable (fst (find_best_response U P (wall_clock E) (patterns b) m)) \<Longrightarrow>
   get_response U P E b m =
     (b, u ''I encountered an error: ''
           @ codec_error E (fst (find_best_response U P (wall_clock E) (patterns b) m))
           @ u ''. Please try rephrasing your message.'')"
  by (simp add: get_response_def try_plain learn_from_conversation_def error_reply_def)

lemma stats_db_error:
  "asks_stats U m \<Longrightarrow> db_error E = Some msg \<Longrightarrow> get_response U P E b m =
     (b, u ''I encountered an error: '' @ msg @ u ''. Please try rephrasing your message.'')"
  by (simp add: get_response_def try_stats get_conversation_stats_def error_reply_def)

text \<open>
  C1. Every exception that can leave the body of the \<open>try\<close> of \<open>get_response\<close> is
  caught, and the call returns "I encountered an error: ", the exception's message and
  ". Please try rephrasing your message.": for an input that reaches the matcher, the
  database's message when the database fails, and the codec's message when the message
  or the response cannot be encoded; for the statistics command, the database's message.
  These are all the failures there are: the body raises exactly in these cases. A failed
  call returns the instance as it was, so a later call behaves as if the failed one had
  not been made.
\<close>

theorem never_raises:
  "(plain U m \<and> db_error E = Some msg \<longrightarrow>
      get_response U P E b m =
        (b, u ''I encountered an error: '' @ msg @ u ''. Please try rephrasing your message.'')) \<and>
   (plain U m \<and> db_error E = None \<and> \<not> encodable m \<longrightarrow>
      get_response U P E b m =
        (b, u ''I encountered an error: '' @ codec_error E m @ u ''. Please try rephrasing your message.'')) \<and>
   (plain U m \<and> db_error E = None \<and> encodable m
      \<and> \<not> encodable (fst (find_best_response U P (wall_clock E) (patterns b) m)) \<longrightarrow>
      get_response U P E b m =
        (b, u ''I encountered an error: ''
              @ codec_error E (fst (find_best_response U P (wall_clock E) (patterns b) m))
              @ u ''. Please try rephrasing your message.'')) \<and>
   (asks_stats U m \<and> db_error E = Some msg \<longrightarrow>
      get_response U P E b m =
        (b, u ''I encountered an error: '' @ msg @ u ''. Please try rephrasing your message.'')) \<and>
   (isl (get_response_try U P E b m) =
      ((plain U m \<and> (db_error E \<noteq> None \<or> \<not> encodable m
           \<or> \<not> encodable (fst (find_best_response U P (wall_clock E) (patterns b) m))))
       \<or> (asks_stats U m \<and> db_error E \<noteq> None))) \<and>
   (isl (get_response_try U P E b m) \<longrightarrow>
      fst (get_response U P E b m) = b \<and>
      get_response U P E' (fst (get_response U P E b m)) m' = get_response U P E' b m')"
  using plain_db_error [of U m E msg P b] plain_codec_error [of U m E P b]
    plain_codec_error_response [of U m E P b] stats_db_error [of U m E msg P b]
    fails_iff [of U P E b m] failed_unchanged [of U P E b m]
  by simp

lemma asks_stats_show: "asks_stats UNICODE_PART (u ''show stats'')"
  by (simp add: asks_stats_def py_strip_def py_lower_def u_def is_space_def ascii_space_def
      ascii_lower_def UNICODE_PART_def)

theorem never_raises_witness:
  "plain UNICODE_PART (u ''Hello There'') \<and> db_error BROKEN = Some (u ''disk I/O error'') \<and>
   isl (get_response_try UNICODE_PART CPYTHON BROKEN BARE (u ''Hello There'')) \<and>
   get_response UNICODE_PART CPYTHON BROKEN BARE (u ''Hello There'') =
     (BARE, u ''I encountered an error: disk I/O error. Please try rephrasing your message.'') \<and>
   get_response UNICODE_PART CPYTHON HEALTHY
       (fst (get_response UNICODE_PART CPYTHON BROKEN BARE (u ''Hello There''))) (u ''Hello There'') =
     get_response UNICODE_PART CPYTHON HEALTHY BARE (u ''Hello There'') \<and>
   asks_stats UNICODE_PART (u ''show stats'') \<and>
   get_response UNICODE_PART CPYTHON BROKEN BARE (u ''show stats'') =
     (BARE, u ''I encountered an error: disk I/O error. Please try rephrasing your message.'')"
proof -
  note t1 = never_raises [of UNICODE_PART "u ''Hello There''" BROKEN "u ''disk I/O error''" CPYTHON BARE
      HEALTHY "u ''Hello There''"]
  note t2 = never_raises [of UNICODE_PART "u ''show stats''" BROKEN "u ''disk I/O error''" CPYTHON BARE
      HEALTHY "u ''Hello There''"]
  have a: "db_error BROKEN = Some (u ''disk I/O error'')" "db_error BROKEN \<noteq> None"
    by (simp_all add: BROKEN_def)
  have b: "isl (get_response_try UNICODE_PART CPYTHON BROKEN BARE (u ''Hello There''))"
    using t1 plain_hello a(2) by blast
  have c: "get_response UNICODE_PART CPYTHON BROKEN BARE (u ''Hello There'') =
      (BARE, u ''I encountered an error: '' @ u ''disk I/O error'' @ u ''. Please try rephrasing your message.'')"
    using t1 plain_hello a(1) by blast
  have d: "get_response UNICODE_PART CPYTHON HEALTHY
       (fst (get_response UNICODE_PART CPYTHON BROKEN BARE (u ''Hello There''))) (u ''Hello There'') =
     get_response UNICODE_PART CPYTHON HEALTHY BARE (u ''Hello There'')"
    using t1 b by blast
  have e: "get_response UNICODE_PART CPYTHON BROKEN BARE (u ''show stats'') =
      (BARE, u ''I encountered an error: '' @ u ''disk I/O error'' @ u ''. Please try rephrasing your message.'')"
    using t2 asks_stats_show a(1) by blast
  show ?thesis
    using plain_hello a(1) b c d e asks_stats_show by (simp add: u_def)
qed

section \<open>Statistics\<close>

lemma avg_empty: "py_round2 (or_zero (sql_avg [])) = FFinite False 0"
  by (simp add: sql_avg_def or_zero_def round64_0 round_half_even_int [of 0, simplified])

lemma sum_list_of_int: "sum_list (map of_int ks) = (of_int (sum_list ks) :: rat)"
  by (induction ks) simp_all

lemma whole_confidences:
  assumes "cs \<noteq> []" "\<forall>c \<in> set cs. 0 \<le> c \<and> c = of_int \<lfloor>c\<rfloor>"
    and "sum_list cs < 2 ^ 53" "length cs < 2 ^ 53"
  shows "py_round2 (or_zero (sql_avg cs)) = py_round2 (round64 False (spec_mean cs))"
proof -
  define ks where "ks = map floor cs"
  have cs: "cs = map of_int ks"
    using assms(2) by (simp add: ks_def map_idI)
  have nn: "\<forall>k \<in> set ks. 0 \<le> k"
    using assms(2) by (auto simp: ks_def)
  have "(of_int (sum_list ks) :: rat) < 2 ^ 53"
    using assms(3) by (simp add: cs sum_list_of_int)
  then have sm: "sum_list ks < 2 ^ 53" by simp
  have ln: "int (length ks) < 2 ^ 53"
    using assms(4) by (simp add: ks_def)
  have ne: "ks \<noteq> []" using assms(1) by (simp add: ks_def)
  have "sql_avg (map of_int ks) = Some (round64 False (of_int (sum_list ks) / of_nat (length ks)))"
    using ne nn sm ln by (rule sql_avg_ints)
  then have "sql_avg cs = Some (round64 False (spec_mean cs))"
    by (simp add: cs spec_mean_def sum_list_of_int del: map_map)
  then show ?thesis by (simp only: or_zero_round64)
qed

lemma stats_total:
  "get_conversation_stats E b = Inr st \<Longrightarrow>
   total_conversations st = length (conversations b) \<and>
   unique_inputs st = card (set (map user_input (conversations b))) \<and>
   average_confidence st = py_round2 (or_zero (sql_avg (map confidence (conversations b))))"
  by (auto simp: get_conversation_stats_def Let_def length_remdups_card_conv split: option.splits)

lemma sql_avg_sample: "sql_avg [1, 1, 1, 2, 1 / 10, 1 / 10] = Some (FFinite False (1951559838527215 / 2251799813685248))"
  by (simp add: sql_avg_def kahanBabuskaNeumaierStep_def Let_def sql_real_def fsub_def signed_def
      round64_0 r64)

lemma round2_sample:
  "py_round2 (FFinite False (1951559838527215 / 2251799813685248)) = round64 False (87 / 100)"
proof -
  have "round_half_even (1951559838527215 / 2251799813685248 * 100) = 87"
    by (rule round_half_even_near) simp_all
  then show ?thesis by simp
qed

lemma stats_sample:
  "get_conversation_stats HEALTHY (BARE\<lparr>conversations := SAMPLE_LOG\<rparr>) =
     Inr \<lparr>total_conversations = 6, average_confidence = round64 False (87 / 100), unique_inputs = 5\<rparr>"
  by (simp add: get_conversation_stats_def HEALTHY_def SAMPLE_LOG_def Let_def sql_avg_sample or_zero_def
      round2_sample del: py_round2.simps)
     (simp add: u_def)

lemma sql_avg_halfway: "sql_avg [1, 2, 2, 1 / 10] = Some (FFinite False (2871044762448691 / 2251799813685248))"
  by (simp add: sql_avg_def kahanBabuskaNeumaierStep_def Let_def sql_real_def fsub_def signed_def
      round64_0 r64)

lemma round2_halfway:
  "py_round2 (FFinite False (2871044762448691 / 2251799813685248)) = round64 False (127 / 100)"
proof -
  have "round_half_even (2871044762448691 / 2251799813685248 * 100) = 127"
    by (rule round_half_even_near) simp_all
  then show ?thesis by simp
qed

lemma stats_halfway:
  "get_conversation_stats HEALTHY (BARE\<lparr>conversations := HALFWAY_LOG\<rparr>) =
     Inr \<lparr>total_conversations = 4, average_confidence = round64 False (127 / 100), unique_inputs = 4\<rparr>"
  by (simp add: get_conversation_stats_def HEALTHY_def HALFWAY_LOG_def Let_def sql_avg_halfway or_zero_def
      round2_halfway del: py_round2.simps)
     (simp add: u_def)

lemma spec_halfway: "spec_stats HALFWAY_LOG = (4, 128 / 100, 4)"
proof -
  have "round_half_even (255 / 2) = (if even (127::int) then 127 else 127 + 1)"
    by (rule round_half_even_tie) simp
  then show ?thesis
    by (simp add: spec_stats_def HALFWAY_LOG_def spec_round2_def spec_mean_def) (simp add: u_def)
qed

text \<open>
  C9, as stated, fails: the average is not the rounded mean of the confidences but the
  rounded binary64 mean that SQLite computes. For a log with the confidences 1, 2, 2
  and 0.1 the mean is 1.275, which rounds to 1.28; the float nearest to 0.1 added to 5
  gives the float just below 5.1, a quarter of which lies below 1.275, and
  \<open>get_conversation_stats\<close> returns 1.27.
\<close>

theorem mean_rounding_counterexample:
  "get_conversation_stats HEALTHY (BARE\<lparr>conversations := HALFWAY_LOG\<rparr>) =
     Inr \<lparr>total_conversations = 4, average_confidence = round64 False (127 / 100), unique_inputs = 4\<rparr> \<and>
   spec_stats HALFWAY_LOG = (4, 128 / 100, 4) \<and>
   round64 False (127 / 100) \<noteq> round64 False (128 / 100)"
  by (simp add: stats_halfway spec_halfway r64)

text \<open>
  C9, amended. \<open>get_conversation_stats\<close> fails exactly when the database does.
  Otherwise, over a log of \<open>N\<close> rows, the total is \<open>N\<close>; the unique inputs are the
  number of distinct \<open>user_input\<close> strings, compared exactly; and the average is
  Python's \<open>round(a, 2)\<close> of SQLite's \<open>AVG\<close>, the compensated binary64 sum of the
  confidences divided by \<open>N\<close>, with 0.0 in place of a missing or zero \<open>AVG\<close>: it is 0.0
  for \<open>N = 0\<close>, and when the confidences are whole numbers (with a sum and an \<open>N\<close>
  below \<open>2 ^ 53\<close>) it is \<open>round(m, 2)\<close> for the float \<open>m\<close> nearest to their mean. On
  the log of six exchanges with the confidences 1, 1, 1, 2, 0.1 and 0.1 and five
  distinct inputs it returns 6, 0.87 and 5.
\<close>

theorem stats_of_log:
  "isl (get_conversation_stats E b) = (db_error E \<noteq> None) \<and>
   (get_conversation_stats E b = Inr st \<longrightarrow>
      total_conversations st = length (conversations b) \<and>
      unique_inputs st = card (set (map user_input (conversations b))) \<and>
      average_confidence st = py_round2 (or_zero (sql_avg (map confidence (conversations b)))) \<and>
      (conversations b = [] \<longrightarrow> average_confidence st = FFinite False 0) \<and>
      (conversations b \<noteq> []
         \<and> (\<forall>r \<in> set (conversations b). 0 \<le> confidence r \<and> confidence r = of_int \<lfloor>confidence r\<rfloor>)
         \<and> sum_list (map confidence (conversations b)) < 2 ^ 53 \<and> length (conversations b) < 2 ^ 53 \<longrightarrow>
         average_confidence st = py_round2 (round64 False (spec_mean (map confidence (conversations b)))))) \<and>
   get_conversation_stats HEALTHY (BARE\<lparr>conversations := SAMPLE_LOG\<rparr>) =
     Inr \<lparr>total_conversations = 6, average_confidence = round64 False (87 / 100), unique_inputs = 5\<rparr>"
proof -
  have a: "average_confidence st = py_round2 (round64 False (spec_mean (map confidence (conversations b))))"
    if h: "get_conversation_stats E b = Inr st" "conversations b \<noteq> []"
      "\<forall>r \<in> set (conversations b). 0 \<le> confidence r \<and> confidence r = of_int \<lfloor>confidence r\<rfloor>"
      "sum_list (map confidence (conversations b)) < 2 ^ 53" "length (conversations b) < 2 ^ 53"
  proof -
    have "py_round2 (or_zero (sql_avg (map confidence (conversations b)))) =
        py_round2 (round64 False (spec_mean (map confidence (conversations b))))"
      using h(2-5) by (intro whole_confidences) simp_all
    then show ?thesis using stats_total [OF h(1)] by simp
  qed
  have b: "average_confidence st = FFinite False 0"
    if h: "get_conversation_stats E b = Inr st" "conversations b = []"
    using stats_total [OF h(1)] h(2) by (simp add: avg_empty)
  show ?thesis
    using a b stats_total [of E b st] stats_fails [of E b] stats_sample by blast
qed

lemma stats_whole:
  "get_conversation_stats HEALTHY (BARE\<lparr>conversations := WHOLE_LOG\<rparr>) =
     Inr \<lparr>total_conversations = 3, average_confidence = py_round2 (or_zero (sql_avg [1, 2, 2])),
          unique_inputs = 2\<rparr>"
  by (simp add: get_conversation_stats_def HEALTHY_def WHOLE_LOG_def Let_def del: py_round2.simps)
     (simp add: u_def)

lemma round2_whole: "py_round2 (round64 False (5 / 3)) = round64 False (167 / 100)"
proof -
  have "round_half_even (7505999378950827 / 4503599627370496 * 100) = 167"
    by (rule round_half_even_near) simp_all
  then show ?thesis by (simp add: r64)
qed

theorem stats_of_log_witness:
  "db_error HEALTHY = None \<and> \<not> isl (get_conversation_stats HEALTHY (BARE\<lparr>conversations := WHOLE_LOG\<rparr>)) \<and>
   get_conversation_stats HEALTHY (BARE\<lparr>conversations := WHOLE_LOG\<rparr>) =
     Inr \<lparr>total_conversations = 3, average_confidence = round64 False (167 / 100), unique_inputs = 2\<rparr> \<and>
   length WHOLE_LOG = 3 \<and> card (set (map user_input WHOLE_LOG)) = 2 \<and>
   spec_mean (map confidence WHOLE_LOG) = 5 / 3"
proof -
  let ?b = "BARE\<lparr>conversations := WHOLE_LOG\<rparr>"
  let ?st = "\<lparr>total_conversations = 3, average_confidence = py_round2 (or_zero (sql_avg [1, 2, 2])),
          unique_inputs = 2\<rparr>"
  note t = stats_of_log [of HEALTHY ?b ?st]
  have a: "db_error HEALTHY = None" by (simp add: HEALTHY_def)
  have b: "\<not> isl (get_conversation_stats HEALTHY ?b)" using t a by blast
  have g: "get_conversation_stats HEALTHY ?b = Inr ?st" by (rule stats_whole)
  have hyp: "conversations ?b \<noteq> []
      \<and> (\<forall>r \<in> set (conversations ?b). 0 \<le> confidence r \<and> confidence r = of_int \<lfloor>confidence r\<rfloor>)
      \<and> sum_list (map confidence (conversations ?b)) < 2 ^ 53 \<and> length (conversations ?b) < 2 ^ 53"
    by (simp add: WHOLE_LOG_def)
  have e: "average_confidence ?st = py_round2 (round64 False (spec_mean (map confidence (conversations ?b))))
      \<and> unique_inputs ?st = card (set (map user_input (conversations ?b)))
      \<and> total_conversations ?st = length (conversations ?b)"
    using t g hyp by blast
  have d: "spec_mean (map confidence WHOLE_LOG) = 5 / 3" "length WHOLE_LOG = 3"
    by (simp_all add: WHOLE_LOG_def spec_mean_def)
  have f: "py_round2 (or_zero (sql_avg [1, 2, 2])) = round64 False (167 / 100)"
    "card (set (map user_input WHOLE_LOG)) = 2"
    using e by (simp_all add: d round2_whole del: py_round2.simps)
  show ?thesis
    using a b d f g by (simp del: py_round2.simps)
qed

end
